theory Spec2Isabelle
  imports Complex_Main
begin

section \<open>Arrays\<close>

text \<open>
  The kernels of \<^verbatim>\<open>solver_cy.pyx\<close> work on numpy arrays of \<^verbatim>\<open>float64\<close>.
  A one-dimensional array is a list, a two-dimensional array is the list of its rows,
  a three-dimensional array \<^verbatim>\<open>wave[m, mw, n]\<close> is a list of two-dimensional arrays.
  The scalar type is left open: the update kernels only need the operations they
  apply, so a theorem about them holds for every type carrying those operations.
  Loop bounds and indices are natural numbers; the call site passes
  \<^verbatim>\<open>LL = num_ghost - 1\<close> and \<^verbatim>\<open>UL = num_ghost + num_cells + 1\<close>, and the
  index \<^verbatim>\<open>n - 1\<close> of the source is only meaningful for \<^verbatim>\<open>1 \<le> LL\<close>, which every
  theorem below assumes.
\<close>

type_synonym 'a array1 = "'a list"
type_synonym 'a array2 = "'a list list"
type_synonym 'a array3 = "'a list list list"

definition get2 :: "'a array2 \<Rightarrow> nat \<Rightarrow> nat \<Rightarrow> 'a" where
  "get2 a m n = a ! m ! n"

definition set2 :: "'a array2 \<Rightarrow> nat \<Rightarrow> nat \<Rightarrow> 'a \<Rightarrow> 'a array2" where
  "set2 a m n v = a[m := (a ! m)[n := v]]"

definition get3 :: "'a array3 \<Rightarrow> nat \<Rightarrow> nat \<Rightarrow> nat \<Rightarrow> 'a" where
  "get3 a m mw n = a ! m ! mw ! n"

text \<open>\<^verbatim>\<open>use_cython = True\<close> at module level: every dispatcher takes the compiled path.\<close>

definition use_cython :: bool where
  "use_cython = True"

datatype py_error = IndexError | ValueError | Exception string

section \<open>First-order Godunov update\<close>

text \<open>
  The body of the double loop of \<^verbatim>\<open>godunov_update_compiled\<close>:
  \<^verbatim>\<open>q[m,n] -= dtdx[n] * apdq[m, n - 1]\<close> followed by
  \<^verbatim>\<open>q[m,n - 1] -= dtdx[n - 1] * amdq[m,n - 1]\<close>. The second statement reads the
  array the first one has written.
\<close>

definition godunov_body ::
  "('a::{minus,times}) array1 \<Rightarrow> 'a array2 \<Rightarrow> 'a array2 \<Rightarrow> nat \<Rightarrow> nat \<Rightarrow> 'a array2 \<Rightarrow> 'a array2" where
  "godunov_body dtdx apdq amdq m n q =
     (let q1 = set2 q m n (get2 q m n - dtdx ! n * get2 apdq m (n - 1))
      in set2 q1 m (n - 1) (get2 q1 m (n - 1) - dtdx ! (n - 1) * get2 amdq m (n - 1)))"

text \<open>\<^verbatim>\<open>for m in range(num_eqn): for n in range(LL, UL): ...\<close>\<close>

definition godunov_update_compiled ::
  "('a::{minus,times}) array1 \<Rightarrow> 'a array2 \<Rightarrow> 'a array2 \<Rightarrow> nat \<Rightarrow> nat \<Rightarrow> nat \<Rightarrow> 'a array2 \<Rightarrow> 'a array2" where
  "godunov_update_compiled dtdx apdq amdq num_eqn LL UL q =
     fold (\<lambda>m. fold (godunov_body dtdx apdq amdq m) [LL..<UL]) [0..<num_eqn] q"

text \<open>
  The value the update leaves in cell \<open>j\<close> of row \<open>m\<close>, from the value \<open>v\<close> the cell
  held before: interface \<open>n = j\<close> subtracts the right-going fluctuation, then interface
  \<open>n = j + 1\<close> subtracts the left-going one, each only when the interface lies in
  \<open>[LL, UL)\<close>.
\<close>

definition godunov_cell ::
  "('a::{minus,times}) array1 \<Rightarrow> 'a array2 \<Rightarrow> 'a array2 \<Rightarrow> nat \<Rightarrow> nat \<Rightarrow> nat \<Rightarrow> nat \<Rightarrow> 'a \<Rightarrow> 'a" where
  "godunov_cell dtdx apdq amdq LL UL m j v =
     (let a = (if LL \<le> j \<and> j < UL then v - dtdx ! j * get2 apdq m (j - 1) else v)
      in if LL \<le> j + 1 \<and> j + 1 < UL then a - dtdx ! j * get2 amdq m j else a)"


subsection \<open>The array-expression fallback\<close>

text \<open>
  A slice \<^verbatim>\<open>xs[lo:hi]\<close> with non-negative bounds: Python clamps both bounds to the
  length and gives the empty slice when they cross.
\<close>

definition py_slice :: "'a list \<Rightarrow> nat \<Rightarrow> nat \<Rightarrow> 'a list" where
  "py_slice xs lo hi = drop lo (take hi xs)"

text \<open>
  An elementwise numpy operation on two one-dimensional arrays: equal lengths combine
  pointwise, a length-one operand is broadcast, any other pair raises
  \<^verbatim>\<open>ValueError\<close>.
\<close>

definition np_binop :: "('a \<Rightarrow> 'a \<Rightarrow> 'a) \<Rightarrow> 'a list \<Rightarrow> 'a list \<Rightarrow> py_error + 'a list" where
  "np_binop f xs ys =
     (if length xs = length ys then Inr (map2 f xs ys)
      else if length xs = 1 then Inr (map (f (hd xs)) ys)
      else if length ys = 1 then Inr (map (\<lambda>x. f x (hd ys)) xs)
      else Inl ValueError)"

text \<open>
  An in-place slice operation \<^verbatim>\<open>row[lo:hi] op= rhs\<close>: the right-hand side must
  have the length of the slice or length one; the slice is overwritten and the rest of
  the row is kept.
\<close>

definition np_inplace_slice ::
  "('a \<Rightarrow> 'a \<Rightarrow> 'a) \<Rightarrow> 'a list \<Rightarrow> nat \<Rightarrow> nat \<Rightarrow> 'a list \<Rightarrow> py_error + 'a list" where
  "np_inplace_slice f row lo hi rhs =
     (let cur = py_slice row lo hi in
      if length rhs = length cur
      then Inr (take lo row @ map2 f cur rhs @ drop (lo + length cur) row)
      else if length rhs = 1
      then Inr (take lo row @ map (\<lambda>x. f x (hd rhs)) cur @ drop (lo + length cur) row)
      else Inl ValueError)"

text \<open>
  One pass of the fallback loop of \<^verbatim>\<open>godunov_update\<close>:
  \<^verbatim>\<open>q[m,LL:UL] -= dtdx[LL:UL]*apdq[m,LL-1:UL-1]\<close> and then
  \<^verbatim>\<open>q[m,LL-1:UL-1] -= dtdx[LL-1:UL-1]*amdq[m,LL-1:UL-1]\<close>.
  A row index beyond an array raises \<^verbatim>\<open>IndexError\<close>.
\<close>

definition godunov_row_numpy ::
  "('a::{minus,times}) array1 \<Rightarrow> 'a array2 \<Rightarrow> 'a array2 \<Rightarrow> nat \<Rightarrow> nat \<Rightarrow> nat \<Rightarrow> 'a array2
     \<Rightarrow> py_error + 'a array2" where
  "godunov_row_numpy dtdx apdq amdq LL UL m q =
     (if \<not> m < length q \<or> \<not> m < length apdq then Inl IndexError
      else case np_binop (*) (py_slice dtdx LL UL) (py_slice (apdq ! m) (LL - 1) (UL - 1)) of
        Inl e \<Rightarrow> Inl e
      | Inr r1 \<Rightarrow>
         (case np_inplace_slice (-) (q ! m) LL UL r1 of
            Inl e \<Rightarrow> Inl e
          | Inr row1 \<Rightarrow>
             (if \<not> m < length amdq then Inl IndexError
              else case np_binop (*) (py_slice dtdx (LL - 1) (UL - 1))
                                      (py_slice (amdq ! m) (LL - 1) (UL - 1)) of
                Inl e \<Rightarrow> Inl e
              | Inr r2 \<Rightarrow>
                 (case np_inplace_slice (-) row1 (LL - 1) (UL - 1) r2 of
                    Inl e \<Rightarrow> Inl e
                  | Inr row2 \<Rightarrow> Inr (q[m := row2])))))"

text \<open>\<^verbatim>\<open>for m in xrange(num_eqn)\<close>, stopping at the first exception.\<close>

fun godunov_rows_numpy ::
  "('a::{minus,times}) array1 \<Rightarrow> 'a array2 \<Rightarrow> 'a array2 \<Rightarrow> nat \<Rightarrow> nat \<Rightarrow> nat list \<Rightarrow> 'a array2
     \<Rightarrow> py_error + 'a array2" where
  "godunov_rows_numpy dtdx apdq amdq LL UL [] q = Inr q"
| "godunov_rows_numpy dtdx apdq amdq LL UL (m # ms) q =
     (case godunov_row_numpy dtdx apdq amdq LL UL m q of
        Inl e \<Rightarrow> Inl e
      | Inr q' \<Rightarrow> godunov_rows_numpy dtdx apdq amdq LL UL ms q')"

definition godunov_update_numpy ::
  "('a::{minus,times}) array1 \<Rightarrow> 'a array2 \<Rightarrow> 'a array2 \<Rightarrow> nat \<Rightarrow> nat \<Rightarrow> nat \<Rightarrow> 'a array2
     \<Rightarrow> py_error + 'a array2" where
  "godunov_update_numpy dtdx apdq amdq num_eqn LL UL q =
     godunov_rows_numpy dtdx apdq amdq LL UL [0..<num_eqn] q"

text \<open>The dispatcher \<^verbatim>\<open>godunov_update\<close>; the result is the array \<open>q\<close> it leaves.\<close>

definition godunov_update ::
  "('a::{minus,times}) array1 \<Rightarrow> 'a array2 \<Rightarrow> 'a array2 \<Rightarrow> nat \<Rightarrow> nat \<Rightarrow> nat \<Rightarrow> 'a array2
     \<Rightarrow> py_error + 'a array2" where
  "godunov_update dtdx apdq amdq num_eqn LL UL q =
     (if use_cython then Inr (godunov_update_compiled dtdx apdq amdq num_eqn LL UL q)
      else godunov_update_numpy dtdx apdq amdq num_eqn LL UL q)"

section \<open>CFL number\<close>

text \<open>
  \<^verbatim>\<open>wave.shape[1]\<close>, the number of wave families, read off the nested list that
  stands for \<^verbatim>\<open>wave[m, mw, n]\<close>.
\<close>

definition shape1 :: "'a array3 \<Rightarrow> nat" where
  "shape1 wave = (case wave of [] \<Rightarrow> 0 | w # _ \<Rightarrow> length w)"

text \<open>
  \<^verbatim>\<open>max(a, b)\<close> and \<^verbatim>\<open>max(a, b, c)\<close> on scalars: the first argument is kept
  unless a later one is strictly greater.
\<close>

definition py_max2 :: "('a::linorder) \<Rightarrow> 'a \<Rightarrow> 'a" where
  "py_max2 a b = (if a < b then b else a)"

definition py_max3 :: "('a::linorder) \<Rightarrow> 'a \<Rightarrow> 'a \<Rightarrow> 'a" where
  "py_max3 a b c = py_max2 (py_max2 a b) c"

text \<open>
  The loop body of \<^verbatim>\<open>compute_max_wave_speed_compiled\<close> on the triple
  \<open>(cfl, smax1, smax2)\<close>. Python reads \<^verbatim>\<open>-dtdx[n - 1] * s[mw,n - 1]\<close> as
  \<^verbatim>\<open>(-dtdx[n - 1]) * s[mw,n - 1]\<close>.
\<close>

definition max_wave_speed_body ::
  "('a::{linorder,times,uminus}) array1 \<Rightarrow> 'a array2 \<Rightarrow> nat \<Rightarrow> nat \<Rightarrow> 'a \<times> 'a \<times> 'a \<Rightarrow> 'a \<times> 'a \<times> 'a" where
  "max_wave_speed_body dtdx s mw n st =
     (case st of (cfl, smax1, smax2) \<Rightarrow>
        let smax1' = py_max2 smax1 (dtdx ! n * get2 s mw (n - 1));
            smax2' = py_max2 smax2 ((- (dtdx ! (n - 1))) * get2 s mw (n - 1));
            cfl' = py_max3 cfl smax1' smax2'
        in (cfl', smax1', smax2'))"

text \<open>
  \<^verbatim>\<open>cfl = 0.0\<close>, \<^verbatim>\<open>smax1 = dtdx[LL] * s[0,LL - 1]\<close>,
  \<^verbatim>\<open>smax2 = -dtdx[LL - 1] * s[0,LL - 1]\<close>, then the double loop over
  \<^verbatim>\<open>xrange(wave.shape[1])\<close> and \<^verbatim>\<open>xrange(LL, UL)\<close>; the running maxima are
  not reset between wave families.
\<close>

definition compute_max_wave_speed_compiled ::
  "('a::{linorder,zero,times,uminus}) array3 \<Rightarrow> 'a array1 \<Rightarrow> 'a array2 \<Rightarrow> nat \<Rightarrow> nat \<Rightarrow> 'a" where
  "compute_max_wave_speed_compiled wave dtdx s LL UL =
     (let init = (0, dtdx ! LL * get2 s 0 (LL - 1), (- (dtdx ! (LL - 1))) * get2 s 0 (LL - 1))
      in fst (fold (\<lambda>mw. fold (max_wave_speed_body dtdx s mw) [LL..<UL]) [0..<shape1 wave] init))"

text \<open>\<^verbatim>\<open>np.max\<close> of a one-dimensional array; the empty array raises \<^verbatim>\<open>ValueError\<close>.\<close>

definition np_max :: "('a::linorder) list \<Rightarrow> py_error + 'a" where
  "np_max xs = (case xs of [] \<Rightarrow> Inl ValueError | x # ys \<Rightarrow> Inr (fold max ys x))"

text \<open>The fallback loop of \<^verbatim>\<open>compute_max_wave_speed\<close>, one wave family per pass.\<close>

fun max_wave_speed_numpy ::
  "('a::{linorder,times,uminus}) array1 \<Rightarrow> 'a array2 \<Rightarrow> nat \<Rightarrow> nat \<Rightarrow> nat list \<Rightarrow> 'a \<Rightarrow> py_error + 'a" where
  "max_wave_speed_numpy dtdx s LL UL [] cfl = Inr cfl"
| "max_wave_speed_numpy dtdx s LL UL (mw # mws) cfl =
     (if \<not> mw < length s then Inl IndexError
      else case np_binop (*) (py_slice dtdx LL UL) (py_slice (s ! mw) (LL - 1) (UL - 1)) of
        Inl e \<Rightarrow> Inl e
      | Inr p1 \<Rightarrow>
         (case np_max p1 of
            Inl e \<Rightarrow> Inl e
          | Inr smax1 \<Rightarrow>
             (case np_binop (*) (map uminus (py_slice dtdx (LL - 1) (UL - 1)))
                                 (py_slice (s ! mw) (LL - 1) (UL - 1)) of
                Inl e \<Rightarrow> Inl e
              | Inr p2 \<Rightarrow>
                 (case np_max p2 of
                    Inl e \<Rightarrow> Inl e
                  | Inr smax2 \<Rightarrow>
                      max_wave_speed_numpy dtdx s LL UL mws (py_max3 cfl smax1 smax2)))))"

text \<open>The dispatcher \<^verbatim>\<open>compute_max_wave_speed\<close>.\<close>

definition compute_max_wave_speed ::
  "('a::{linorder,zero,times,uminus}) array3 \<Rightarrow> 'a array1 \<Rightarrow> 'a array2 \<Rightarrow> nat \<Rightarrow> nat \<Rightarrow> py_error + 'a" where
  "compute_max_wave_speed wave dtdx s LL UL =
     (if use_cython then Inr (compute_max_wave_speed_compiled wave dtdx s LL UL)
      else max_wave_speed_numpy dtdx s LL UL [0..<shape1 wave] 0)"

text \<open>
  The accumulation the specification describes: start from \<open>0\<close> and take, for every
  wave family and every interface of \<open>[LL, UL)\<close>, the maximum with the two terms.
\<close>

definition cfl_accumulate ::
  "('a::{linorder,zero,times,uminus}) array3 \<Rightarrow> 'a array1 \<Rightarrow> 'a array2 \<Rightarrow> nat \<Rightarrow> nat \<Rightarrow> 'a" where
  "cfl_accumulate wave dtdx s LL UL =
     fold (\<lambda>mw. fold (\<lambda>n c. max (max c (dtdx ! n * get2 s mw (n - 1)))
                                ((- (dtdx ! (n - 1))) * get2 s mw (n - 1))) [LL..<UL])
          [0..<shape1 wave] 0"

text \<open>The two terms an interface \<open>n\<close> of wave family \<open>mw\<close> contributes.\<close>

definition cfl_right :: "('a::{times,uminus}) array1 \<Rightarrow> 'a array2 \<Rightarrow> nat \<times> nat \<Rightarrow> 'a" where
  "cfl_right dtdx s p = dtdx ! snd p * get2 s (fst p) (snd p - 1)"

definition cfl_left :: "('a::{times,uminus}) array1 \<Rightarrow> 'a array2 \<Rightarrow> nat \<times> nat \<Rightarrow> 'a" where
  "cfl_left dtdx s p = (- (dtdx ! (snd p - 1))) * get2 s (fst p) (snd p - 1)"

section \<open>Correction fluxes\<close>

text \<open>
  The scratch arrays of \<^verbatim>\<open>compute_correction_fluxes_compiled\<close> come from
  \<^verbatim>\<open>np.empty\<close> and are indexed with bounds checking switched off. A buffer is the
  memory from the base address of the array on: \<open>len\<close> cells belong to the array and
  start with whatever the allocator left there (\<open>junk\<close>); an index \<open>\<ge> len\<close> addresses
  the memory behind the array, which the model keeps apart from every other array.
  Every access is recorded in \<open>trace\<close>.
\<close>

datatype access = Rd nat | Wr nat

record 'a buffer =
  len :: nat
  mem :: "nat \<Rightarrow> 'a"
  trace :: "access list"

definition np_empty :: "(nat \<Rightarrow> 'a) \<Rightarrow> nat \<Rightarrow> 'a buffer" where
  "np_empty junk n = \<lparr>len = n, mem = junk, trace = []\<rparr>"

definition buf_set :: "'a buffer \<Rightarrow> nat \<Rightarrow> 'a \<Rightarrow> 'a buffer" where
  "buf_set b i v = b\<lparr>mem := (mem b)(i := v), trace := trace b @ [Wr i]\<rparr>"

definition buf_get :: "'a buffer \<Rightarrow> nat \<Rightarrow> 'a" where
  "buf_get b i = mem b i"

definition buf_note_read :: "'a buffer \<Rightarrow> nat \<Rightarrow> 'a buffer" where
  "buf_note_read b i = b\<lparr>trace := trace b @ [Rd i]\<rparr>"

text \<open>Every access lies inside the array.\<close>

definition trace_in_bounds :: "'a buffer \<Rightarrow> bool" where
  "trace_in_bounds b = list_all (\<lambda>a. case a of Rd i \<Rightarrow> i < len b | Wr i \<Rightarrow> i < len b) (trace b)"

text \<open>Every read is of a cell written earlier; \<open>ws\<close> are the cells written so far.\<close>

fun reads_after_writes :: "nat list \<Rightarrow> access list \<Rightarrow> bool" where
  "reads_after_writes ws [] = True"
| "reads_after_writes ws (Wr i # as) = reads_after_writes (i # ws) as"
| "reads_after_writes ws (Rd i # as) = (i \<in> set ws \<and> reads_after_writes ws as)"

record 'a cf_state =
  f_arr :: "'a array2"
  sabs_buf :: "'a buffer"
  om_buf :: "'a buffer"
  dtdxave_buf :: "'a buffer"
  ssign_buf :: "'a buffer"

text \<open>\<^verbatim>\<open>dtdxave[i - LL] = 0.5 * (dtdx[i - 1] + dtdx[i])\<close>\<close>

definition cf_dtdxave_body :: "('a::linordered_field) array1 \<Rightarrow> nat \<Rightarrow> nat \<Rightarrow> 'a cf_state \<Rightarrow> 'a cf_state" where
  "cf_dtdxave_body dtdx LL i st =
     st\<lparr>dtdxave_buf := buf_set (dtdxave_buf st) (i - LL) ((1 / 2) * (dtdx ! (i - 1) + dtdx ! i))\<rparr>"

text \<open>
  The first inner loop: \<^verbatim>\<open>sabs[n - LL] = abs(s[mw,n - 1])\<close>,
  \<^verbatim>\<open>om[n - LL] = 1.0 - sabs[n - LL] * dtdxave[n - LL]\<close> and, with \<^verbatim>\<open>fwave\<close>,
  \<^verbatim>\<open>ssign[n] = -1 if s[mw,n - 1] < 0 else 1 if s[mw,n - 1] > 0 else 0\<close>.
  The index of the last store is \<open>n\<close>, as the source has it.
\<close>

definition cf_coeff_body ::
  "('a::linordered_field) array2 \<Rightarrow> nat \<Rightarrow> bool \<Rightarrow> nat \<Rightarrow> nat \<Rightarrow> 'a cf_state \<Rightarrow> 'a cf_state" where
  "cf_coeff_body s LL fwave mw n st =
     (let st1 = st\<lparr>sabs_buf := buf_set (sabs_buf st) (n - LL) \<bar>get2 s mw (n - 1)\<bar>\<rparr>;
          st2 = st1\<lparr>om_buf := buf_set (om_buf st1) (n - LL)
                          (1 - buf_get (sabs_buf st1) (n - LL) * buf_get (dtdxave_buf st1) (n - LL)),
                    sabs_buf := buf_note_read (sabs_buf st1) (n - LL),
                    dtdxave_buf := buf_note_read (dtdxave_buf st1) (n - LL)\<rparr>
      in if fwave
         then st2\<lparr>ssign_buf := buf_set (ssign_buf st2) n
                    (if get2 s mw (n - 1) < 0 then - 1 else if get2 s mw (n - 1) > 0 then 1 else 0)\<rparr>
         else st2)"

text \<open>
  The second inner loop: with \<^verbatim>\<open>fwave\<close>,
  \<^verbatim>\<open>f[m, n] += 0.5 * ssign[n - LL] * om[n - LL] * wave[m, mw, n-1]\<close>, else the same
  with \<^verbatim>\<open>sabs[n - LL]\<close> in the place of \<^verbatim>\<open>ssign[n - LL]\<close>.
\<close>

definition cf_flux_body ::
  "('a::linordered_field) array3 \<Rightarrow> nat \<Rightarrow> bool \<Rightarrow> nat \<Rightarrow> nat \<Rightarrow> nat \<Rightarrow> 'a cf_state \<Rightarrow> 'a cf_state" where
  "cf_flux_body wave LL fwave mw m n st =
     (if fwave
      then st\<lparr>f_arr := set2 (f_arr st) m n
                 (get2 (f_arr st) m n +
                  (1 / 2) * buf_get (ssign_buf st) (n - LL) * buf_get (om_buf st) (n - LL)
                    * get3 wave m mw (n - 1)),
               ssign_buf := buf_note_read (ssign_buf st) (n - LL),
               om_buf := buf_note_read (om_buf st) (n - LL)\<rparr>
      else st\<lparr>f_arr := set2 (f_arr st) m n
                 (get2 (f_arr st) m n +
                  (1 / 2) * buf_get (sabs_buf st) (n - LL) * buf_get (om_buf st) (n - LL)
                    * get3 wave m mw (n - 1)),
               sabs_buf := buf_note_read (sabs_buf st) (n - LL),
               om_buf := buf_note_read (om_buf st) (n - LL)\<rparr>)"

text \<open>
  The whole of \<^verbatim>\<open>compute_correction_fluxes_compiled\<close>, returning the final state so
  that the accesses to the scratch arrays can be inspected. \<open>junk k\<close> is the initial
  content of the \<open>k\<close>-th \<^verbatim>\<open>np.empty\<close> array; \<^verbatim>\<open>ssign\<close> is allocated only with
  \<^verbatim>\<open>fwave\<close>.
\<close>

definition compute_correction_fluxes_run ::
  "(nat \<Rightarrow> nat \<Rightarrow> 'a) \<Rightarrow> ('a::linordered_field) array3 \<Rightarrow> 'a array2 \<Rightarrow> 'a array1
     \<Rightarrow> nat \<Rightarrow> nat \<Rightarrow> nat \<Rightarrow> nat \<Rightarrow> nat \<Rightarrow> bool \<Rightarrow> 'a cf_state" where
  "compute_correction_fluxes_run junk wave s dtdx num_eqn num_ghost num_cells LL UL fwave =
     (let st0 = \<lparr>f_arr = replicate num_eqn (replicate (num_cells + 2 * num_ghost) 0),
                 sabs_buf = np_empty (junk 0) (UL - LL),
                 om_buf = np_empty (junk 1) (UL - LL),
                 dtdxave_buf = np_empty (junk 2) (UL - LL),
                 ssign_buf = np_empty (junk 3) (if fwave then UL - LL else 0)\<rparr>;
          st1 = fold (cf_dtdxave_body dtdx LL) [LL..<UL] st0
      in fold (\<lambda>mw st.
                 fold (\<lambda>m. fold (cf_flux_body wave LL fwave mw m) [LL..<UL]) [0..<num_eqn]
                   (fold (cf_coeff_body s LL fwave mw) [LL..<UL] st))
              [0..<shape1 wave] st1)"

definition compute_correction_fluxes_compiled ::
  "(nat \<Rightarrow> nat \<Rightarrow> 'a) \<Rightarrow> ('a::linordered_field) array3 \<Rightarrow> 'a array2 \<Rightarrow> 'a array1
     \<Rightarrow> nat \<Rightarrow> nat \<Rightarrow> nat \<Rightarrow> nat \<Rightarrow> nat \<Rightarrow> bool \<Rightarrow> 'a array2" where
  "compute_correction_fluxes_compiled junk wave s dtdx num_eqn num_ghost num_cells LL UL fwave =
     f_arr (compute_correction_fluxes_run junk wave s dtdx num_eqn num_ghost num_cells LL UL fwave)"

subsection \<open>The array-expression fallback\<close>

text \<open>
  \<^verbatim>\<open>f[m,LL:UL] += 0.5 * coef * om * wave[m,mw,LL-1:UL-1]\<close> for every equation,
  where \<open>coef\<close> is \<^verbatim>\<open>ssign\<close> with \<^verbatim>\<open>fwave\<close> and \<^verbatim>\<open>sabs\<close> without.
\<close>

fun cf_eqns_numpy ::
  "('a::linordered_field) array3 \<Rightarrow> 'a list \<Rightarrow> 'a list \<Rightarrow> nat \<Rightarrow> nat \<Rightarrow> nat \<Rightarrow> nat list \<Rightarrow> 'a array2
     \<Rightarrow> py_error + 'a array2" where
  "cf_eqns_numpy wave coef omv mw LL UL [] f = Inr f"
| "cf_eqns_numpy wave coef omv mw LL UL (m # ms) f =
     (if \<not> m < length f then Inl IndexError
      else case np_binop (*) (map ((*) (1 / 2)) coef) omv of
        Inl e \<Rightarrow> Inl e
      | Inr t1 \<Rightarrow>
         (if \<not> m < length wave \<or> \<not> mw < length (wave ! m) then Inl IndexError
          else case np_binop (*) t1 (py_slice (wave ! m ! mw) (LL - 1) (UL - 1)) of
            Inl e \<Rightarrow> Inl e
          | Inr t2 \<Rightarrow>
             (case np_inplace_slice (+) (f ! m) LL UL t2 of
                Inl e \<Rightarrow> Inl e
              | Inr row \<Rightarrow> cf_eqns_numpy wave coef omv mw LL UL ms (f[m := row]))))"

text \<open>
  One wave family: \<^verbatim>\<open>sabs = np.abs(s[mw,LL-1:UL-1])\<close>,
  \<^verbatim>\<open>om = 1.0 - sabs*dtdxave[:UL-LL]\<close>, \<^verbatim>\<open>ssign = np.sign(s[mw,LL-1:UL-1])\<close>.
\<close>

fun cf_waves_numpy ::
  "('a::linordered_field) array3 \<Rightarrow> 'a array2 \<Rightarrow> 'a list \<Rightarrow> nat \<Rightarrow> nat \<Rightarrow> nat \<Rightarrow> bool \<Rightarrow> nat list
     \<Rightarrow> 'a array2 \<Rightarrow> py_error + 'a array2" where
  "cf_waves_numpy wave s dtdxave num_eqn LL UL fwave [] f = Inr f"
| "cf_waves_numpy wave s dtdxave num_eqn LL UL fwave (mw # mws) f =
     (if \<not> mw < length s then Inl IndexError
      else let sabs = map abs (py_slice (s ! mw) (LL - 1) (UL - 1)) in
        case np_binop (*) sabs (py_slice dtdxave 0 (UL - LL)) of
          Inl e \<Rightarrow> Inl e
        | Inr t \<Rightarrow>
           (let omv = map (\<lambda>x. 1 - x) t;
                ssign = map sgn (py_slice (s ! mw) (LL - 1) (UL - 1))
            in case cf_eqns_numpy wave (if fwave then ssign else sabs) omv mw LL UL [0..<num_eqn] f of
                 Inl e \<Rightarrow> Inl e
               | Inr f' \<Rightarrow> cf_waves_numpy wave s dtdxave num_eqn LL UL fwave mws f'))"

definition compute_correction_fluxes_numpy ::
  "('a::linordered_field) array3 \<Rightarrow> 'a array2 \<Rightarrow> 'a array1
     \<Rightarrow> nat \<Rightarrow> nat \<Rightarrow> nat \<Rightarrow> nat \<Rightarrow> nat \<Rightarrow> bool \<Rightarrow> py_error + 'a array2" where
  "compute_correction_fluxes_numpy wave s dtdx num_eqn num_ghost num_cells LL UL fwave =
     (case np_binop (+) (py_slice dtdx (LL - 1) (UL - 1)) (py_slice dtdx LL UL) of
        Inl e \<Rightarrow> Inl e
      | Inr t \<Rightarrow>
          cf_waves_numpy wave s (map ((*) (1 / 2)) t) num_eqn LL UL fwave [0..<shape1 wave]
            (replicate num_eqn (replicate (num_cells + 2 * num_ghost) 0)))"

text \<open>The dispatcher \<^verbatim>\<open>compute_correction_fluxes\<close>.\<close>

definition compute_correction_fluxes ::
  "(nat \<Rightarrow> nat \<Rightarrow> 'a) \<Rightarrow> ('a::linordered_field) array3 \<Rightarrow> 'a array2 \<Rightarrow> 'a array1
     \<Rightarrow> nat \<Rightarrow> nat \<Rightarrow> nat \<Rightarrow> nat \<Rightarrow> nat \<Rightarrow> bool \<Rightarrow> py_error + 'a array2" where
  "compute_correction_fluxes junk wave s dtdx num_eqn num_ghost num_cells LL UL fwave =
     (if use_cython
      then Inr (compute_correction_fluxes_compiled junk wave s dtdx num_eqn num_ghost num_cells LL UL fwave)
      else compute_correction_fluxes_numpy wave s dtdx num_eqn num_ghost num_cells LL UL fwave)"

text \<open>
  The flux-splitting formula of the specification for entry \<open>(m, n)\<close>: the sum over the
  wave families of
  \<open>0.5 \<cdot> sign(s[mw,n-1]) \<cdot> (1 - |s[mw,n-1]| \<cdot> 0.5 \<cdot> (dtdx[n-1] + dtdx[n])) \<cdot> wave[m,mw,n-1]\<close>.
\<close>

definition fwave_flux_formula ::
  "('a::linordered_field) array3 \<Rightarrow> 'a array2 \<Rightarrow> 'a array1 \<Rightarrow> nat \<Rightarrow> nat \<Rightarrow> 'a" where
  "fwave_flux_formula wave s dtdx m n =
     fold (\<lambda>mw acc. acc + (1 / 2) * sgn (get2 s mw (n - 1))
                        * (1 - \<bar>get2 s mw (n - 1)\<bar> * ((1 / 2) * (dtdx ! (n - 1) + dtdx ! n)))
                        * get3 wave m mw (n - 1))
          [0..<shape1 wave] 0"

section \<open>Step driver\<close>

text \<open>
  \<^verbatim>\<open>ClawSolver.step\<close> calls three collaborators that are not part of this module:
  \<^verbatim>\<open>get_dt\<close>, which chooses the step size, \<^verbatim>\<open>step_hyperbolic\<close>, which the
  dimension-specific subclass supplies, and the user's \<^verbatim>\<open>step_source\<close>. The
  configuration a step reads but does not assign is a record of its own; the
  collaborators act on the variables of the solver. The list of calls made is kept
  beside the variables, out of reach of the collaborators.
\<close>

datatype call = SourceStep real | Hyperbolic

record 'q solver_config =
  source_split :: int
  step_source :: "('q \<Rightarrow> real \<Rightarrow> 'q) option"
  cfl_max :: real

record 'q solver_vars =
  dt :: real
  cfl :: real
  state0 :: 'q

text \<open>
  Modelled from the spec: the CFL tracker \<^verbatim>\<open>self.cfl\<close> belongs to the base solver,
  which is not in this module. It is the running maximum of the Courant number:
  \<^verbatim>\<open>set_global_max\<close> stores a value, \<^verbatim>\<open>update_global_max\<close> takes the maximum with
  a reported value, \<^verbatim>\<open>get_cached_max\<close> reads it.
\<close>

definition set_global_max :: "real \<Rightarrow> 'q solver_vars \<Rightarrow> 'q solver_vars" where
  "set_global_max c v = v\<lparr>cfl := c\<rparr>"

definition update_global_max :: "real \<Rightarrow> 'q solver_vars \<Rightarrow> 'q solver_vars" where
  "update_global_max c v = v\<lparr>cfl := max (cfl v) c\<rparr>"

definition get_cached_max :: "'q solver_vars \<Rightarrow> real" where
  "get_cached_max v = cfl v"

text \<open>\<^verbatim>\<open>self.step_source(self, solution.states[0], d)\<close>, recorded in the list of calls.\<close>

definition call_step_source ::
  "('q \<Rightarrow> real \<Rightarrow> 'q) \<Rightarrow> real \<Rightarrow> 'q solver_vars \<times> call list \<Rightarrow> 'q solver_vars \<times> call list" where
  "call_step_source src d vc =
     (case vc of (v, calls) \<Rightarrow> (v\<lparr>state0 := src (state0 v) d\<rparr>, calls @ [SourceStep d]))"

text \<open>
  The first half of \<^verbatim>\<open>step\<close>, up to and including \<^verbatim>\<open>self.step_hyperbolic(solution)\<close>:
  choose the step, reset the tracker, take the Strang half step on the source term,
  take the hyperbolic step.
\<close>

definition step_to_hyperbolic ::
  "'q solver_config \<Rightarrow> ('q solver_vars \<Rightarrow> 'q solver_vars) \<Rightarrow> ('q solver_vars \<Rightarrow> 'q solver_vars)
     \<Rightarrow> 'q solver_vars \<Rightarrow> 'q solver_vars \<times> call list" where
  "step_to_hyperbolic cfg get_dt step_hyperbolic v =
     (let v1 = set_global_max 0 (get_dt v);
          vc = (case step_source cfg of
                  Some src \<Rightarrow> if source_split cfg = 2 then call_step_source src (dt v1 / 2) (v1, [])
                              else (v1, [])
                | None \<Rightarrow> (v1, []))
      in (step_hyperbolic (fst vc), snd vc @ [Hyperbolic]))"

text \<open>
  \<^verbatim>\<open>step\<close>: after the hyperbolic step, \<^verbatim>\<open>if self.cfl.get_cached_max() >= self.cfl_max:
  return False\<close>; otherwise the remaining source steps and \<^verbatim>\<open>return True\<close>. The result
  is the returned flag, the variables and the calls made.
\<close>

definition step ::
  "'q solver_config \<Rightarrow> ('q solver_vars \<Rightarrow> 'q solver_vars) \<Rightarrow> ('q solver_vars \<Rightarrow> 'q solver_vars)
     \<Rightarrow> 'q solver_vars \<Rightarrow> bool \<times> 'q solver_vars \<times> call list" where
  "step cfg get_dt step_hyperbolic v =
     (let vc = step_to_hyperbolic cfg get_dt step_hyperbolic v in
      if get_cached_max (fst vc) \<ge> cfl_max cfg then (False, vc)
      else case step_source cfg of
             None \<Rightarrow> (True, vc)
           | Some src \<Rightarrow>
               (let vc1 = (if source_split cfg = 2
                           then call_step_source src (dt (fst vc) / 2) vc else vc);
                    vc2 = (if source_split cfg = 1
                           then call_step_source src (dt (fst vc1)) vc1 else vc1)
                in (True, vc2)))"

text \<open>
  A hyperbolic step that measures the Courant number \<open>c\<close> and reports it to the tracker,
  as \<^verbatim>\<open>ClawSolver1D.step_hyperbolic\<close> does with \<^verbatim>\<open>self.cfl.update_global_max(cfl)\<close>;
  a step-size selector that sets \<^verbatim>\<open>self.dt\<close>; a source term that leaves the state as
  it is. They serve as concrete collaborators.
\<close>

definition hyperbolic_reporting :: "real \<Rightarrow> 'q solver_vars \<Rightarrow> 'q solver_vars" where
  "hyperbolic_reporting c v = update_global_max c v"

definition get_dt_const :: "real \<Rightarrow> 'q solver_vars \<Rightarrow> 'q solver_vars" where
  "get_dt_const d v = v\<lparr>dt := d\<rparr>"

definition idle_source :: "'q \<Rightarrow> real \<Rightarrow> 'q" where
  "idle_source x d = x"

section \<open>Limiter specification\<close>

text \<open>
  \<^verbatim>\<open>self.limiters\<close> is either a Python list or any other value.
  \<^verbatim>\<open>_set_mthlim\<close> wraps a non-list in a list, repeats a list of length one
  \<^verbatim>\<open>num_waves\<close> times (a list times a negative integer is empty) and raises when
  the length then differs from \<^verbatim>\<open>num_waves\<close>. The result is \<^verbatim>\<open>self._mthlim\<close>.
\<close>

datatype 'l limiters = NonList 'l | PyList "'l list"

definition set_mthlim :: "'l limiters \<Rightarrow> int \<Rightarrow> py_error + 'l list" where
  "set_mthlim lims num_waves =
     (let m0 = (case lims of NonList x \<Rightarrow> [x] | PyList xs \<Rightarrow> xs);
          m1 = (if length m0 = 1 then concat (replicate (nat num_waves) m0) else m0)
      in if int (length m1) \<noteq> num_waves
         then Inl (Exception ''Length of solver.limiters is not equal to 1 or to solver.num_waves'')
         else Inr m1)"

section \<open>A unit pulse under advection\<close>

text \<open>
  The interface flux of advection with unit speed for a state that is \<open>1\<close> in cell \<open>3\<close>
  and \<open>0\<close> elsewhere (two ghost cells on the left), indexed
  so that the fluctuations at interface \<open>i\<close> are \<open>F i - F (i - 1)\<close>: \<open>F i = q[i + 1]\<close>.
  With two physical cells the pulse sits in the last physical cell, with three it is
  interior.
\<close>

definition pulse_flux :: "int \<Rightarrow> real" where
  "pulse_flux i = (if i = 2 then 1 else 0)"

section \<open>Properties of the Godunov update\<close>

subsection \<open>The compiled double loop, cell by cell\<close>

lemma set2_length [simp]: "length (set2 a m n v) = length a"
  by (simp add: set2_def)

lemma set2_row_length [simp]: "length (set2 a m n v ! r) = length (a ! r)"
  by (cases "m < length a"; cases "r = m") (simp_all add: set2_def list_update_beyond)

lemma get2_set2:
  "m < length a \<Longrightarrow> n < length (a ! m) \<Longrightarrow>
   get2 (set2 a m n v) r j = (if r = m \<and> j = n then v else get2 a r j)"
  by (auto simp: get2_def set2_def nth_list_update)

lemma godunov_body_length [simp]: "length (godunov_body dtdx apdq amdq m n q) = length q"
  by (simp add: godunov_body_def Let_def)

lemma godunov_body_row_length [simp]:
  "length (godunov_body dtdx apdq amdq m n q ! r) = length (q ! r)"
  by (simp add: godunov_body_def Let_def)

lemma godunov_inner_length [simp]:
  "length (fold (godunov_body dtdx apdq amdq m) ns q) = length q"
  by (induction ns arbitrary: q) simp_all

lemma godunov_inner_row_length [simp]:
  "length (fold (godunov_body dtdx apdq amdq m) ns q ! r) = length (q ! r)"
  by (induction ns arbitrary: q) simp_all

lemma godunov_body_get2:
  assumes "m < length q" "n < length (q ! m)" "1 \<le> n"
  shows "get2 (godunov_body dtdx apdq amdq m n q) r j =
     (if r = m \<and> j = n then get2 q m n - dtdx ! n * get2 apdq m (n - 1)
      else if r = m \<and> j = n - 1 then get2 q m (n - 1) - dtdx ! (n - 1) * get2 amdq m (n - 1)
      else get2 q r j)"
  using assms by (auto simp: godunov_body_def Let_def get2_set2)

lemma godunov_inner_get2:
  assumes "m < length q" "1 \<le> LL" "LL \<le> k" "k \<le> length (q ! m)"
  shows "get2 (fold (godunov_body dtdx apdq amdq m) [LL..<k] q) r j =
     (if r = m then godunov_cell dtdx apdq amdq LL k m j (get2 q m j) else get2 q r j)"
  using assms(3,4)
proof (induction k arbitrary: r j rule: dec_induct)
  case base
  then show ?case by (auto simp: godunov_cell_def Let_def)
next
  case (step k)
  let ?q = "fold (godunov_body dtdx apdq amdq m) [LL..<k] q"
  have k: "k < length (?q ! m)" "m < length ?q" "1 \<le> k"
    using step assms by simp_all
  have IH: "\<And>r j. get2 ?q r j =
     (if r = m then godunov_cell dtdx apdq amdq LL k m j (get2 q m j) else get2 q r j)"
    using step by simp
  show ?case using step.hyps assms(2)
    by (simp add: godunov_body_get2[OF k(2) k(1) k(3)] IH)
       (auto simp: godunov_cell_def Let_def)
qed

lemma godunov_outer_length [simp]:
  "length (fold (\<lambda>m. fold (godunov_body dtdx apdq amdq m) ns) ms q) = length q"
  by (induction ms arbitrary: q) simp_all

lemma godunov_outer_row_length [simp]:
  "length (fold (\<lambda>m. fold (godunov_body dtdx apdq amdq m) ns) ms q ! r) = length (q ! r)"
  by (induction ms arbitrary: q) simp_all

lemma godunov_outer_get2:
  assumes "1 \<le> LL" "LL \<le> UL" "k \<le> length q" "\<forall>m<k. UL \<le> length (q ! m)"
  shows "get2 (godunov_update_compiled dtdx apdq amdq k LL UL q) r j =
     (if r < k then godunov_cell dtdx apdq amdq LL UL r j (get2 q r j) else get2 q r j)"
  using assms(3,4)
proof (induction k arbitrary: r j)
  case 0
  then show ?case by (simp add: godunov_update_compiled_def)
next
  case (Suc k)
  let ?q = "godunov_update_compiled dtdx apdq amdq k LL UL q"
  have IH: "\<And>r j. get2 ?q r j =
     (if r < k then godunov_cell dtdx apdq amdq LL UL r j (get2 q r j) else get2 q r j)"
    using Suc.IH Suc.prems by simp
  have a: "k < length ?q" "UL \<le> length (?q ! k)"
    using Suc.prems by (simp_all add: godunov_update_compiled_def)
  have "godunov_update_compiled dtdx apdq amdq (Suc k) LL UL q =
        fold (godunov_body dtdx apdq amdq k) [LL..<UL] ?q"
    by (simp add: godunov_update_compiled_def)
  then show ?case
    by (simp add: godunov_inner_get2[OF a(1) assms(1) assms(2) a(2)] IH less_Suc_eq)
qed

subsection \<open>The fallback, row by row\<close>

lemma py_slice_length: "hi \<le> length xs \<Longrightarrow> length (py_slice xs lo hi) = hi - lo"
  by (simp add: py_slice_def)

lemma py_slice_nth: "hi \<le> length xs \<Longrightarrow> lo + i < hi \<Longrightarrow> py_slice xs lo hi ! i = xs ! (lo + i)"
  by (simp add: py_slice_def)

lemma np_inplace_slice_eq:
  assumes "length rhs = hi - lo" "lo \<le> hi" "hi \<le> length row"
  shows "np_inplace_slice f row lo hi rhs =
     Inr (map (\<lambda>j. if lo \<le> j \<and> j < hi then f (row ! j) (rhs ! (j - lo)) else row ! j) [0..<length row])"
proof -
  let ?r = "take lo row @ map2 f (py_slice row lo hi) rhs @ drop (lo + (hi - lo)) row"
  have "?r = map (\<lambda>j. if lo \<le> j \<and> j < hi then f (row ! j) (rhs ! (j - lo)) else row ! j) [0..<length row]"
  proof (rule nth_equalityI)
    show "length ?r = length (map (\<lambda>j. if lo \<le> j \<and> j < hi then f (row ! j) (rhs ! (j - lo)) else row ! j) [0..<length row])"
      using assms by (simp add: py_slice_length)
  next
    fix i assume "i < length ?r"
    then have i: "i < length row" using assms by (simp add: py_slice_length)
    show "?r ! i = map (\<lambda>j. if lo \<le> j \<and> j < hi then f (row ! j) (rhs ! (j - lo)) else row ! j) [0..<length row] ! i"
      using assms i
      by (auto simp: nth_append py_slice_length py_slice_nth)
  qed
  then show ?thesis using assms by (simp add: np_inplace_slice_def Let_def py_slice_length)
qed

lemma np_mul_eq:
  assumes "length xs = length ys"
  shows "np_binop f xs ys = Inr (map2 f xs ys)"
  using assms by (simp add: np_binop_def)

lemma map2_slices_nth:
  assumes "hi \<le> length xs" "hi' \<le> length ys" "hi - lo = hi' - lo'" "lo + i < hi"
  shows "map2 f (py_slice xs lo hi) (py_slice ys lo' hi') ! i = f (xs ! (lo + i)) (ys ! (lo' + i))"
proof -
  have "lo' + i < hi'" using assms by arith
  then show ?thesis
    using assms by (simp add: py_slice_length py_slice_nth)
qed

lemma godunov_row_numpy_eq:
  assumes "1 \<le> LL" "LL \<le> UL" "m < length q" "m < length apdq" "m < length amdq"
      "UL \<le> length dtdx" "UL \<le> length (q ! m)"
      "UL - 1 \<le> length (apdq ! m)" "UL - 1 \<le> length (amdq ! m)"
  shows "godunov_row_numpy dtdx apdq amdq LL UL m q =
     Inr (q[m := map (\<lambda>j. godunov_cell dtdx apdq amdq LL UL m j (q ! m ! j)) [0..<length (q ! m)]])"
proof -
  define r1 where "r1 = map2 (*) (py_slice dtdx LL UL) (py_slice (apdq ! m) (LL - 1) (UL - 1))"
  define row1 where
    "row1 = map (\<lambda>j. if LL \<le> j \<and> j < UL then q ! m ! j - r1 ! (j - LL) else q ! m ! j) [0..<length (q ! m)]"
  define r2 where "r2 = map2 (*) (py_slice dtdx (LL - 1) (UL - 1)) (py_slice (amdq ! m) (LL - 1) (UL - 1))"
  define row2 where
    "row2 = map (\<lambda>j. if LL - 1 \<le> j \<and> j < UL - 1 then row1 ! j - r2 ! (j - (LL - 1)) else row1 ! j)
              [0..<length row1]"
  have l1: "length r1 = UL - LL" using assms by (simp add: r1_def py_slice_length)
  have l2: "length r2 = (UL - 1) - (LL - 1)" using assms by (simp add: r2_def py_slice_length)
  have lrow1: "length row1 = length (q ! m)" by (simp add: row1_def)
  have s1: "np_binop (*) (py_slice dtdx LL UL) (py_slice (apdq ! m) (LL - 1) (UL - 1)) = Inr r1"
    unfolding r1_def using assms by (intro np_mul_eq) (simp add: py_slice_length)
  have s2: "np_inplace_slice (-) (q ! m) LL UL r1 = Inr row1"
    unfolding row1_def using assms l1 by (intro np_inplace_slice_eq) simp_all
  have s3: "np_binop (*) (py_slice dtdx (LL - 1) (UL - 1)) (py_slice (amdq ! m) (LL - 1) (UL - 1)) = Inr r2"
    unfolding r2_def using assms by (intro np_mul_eq) (simp add: py_slice_length)
  have s4: "np_inplace_slice (-) row1 (LL - 1) (UL - 1) r2 = Inr row2"
    unfolding row2_def
  proof (rule np_inplace_slice_eq)
    show "length r2 = UL - 1 - (LL - 1)" by (rule l2)
    show "LL - 1 \<le> UL - 1" using assms by arith
    show "UL - 1 \<le> length row1" using assms lrow1 by simp
  qed
  have "row2 = map (\<lambda>j. godunov_cell dtdx apdq amdq LL UL m j (q ! m ! j)) [0..<length (q ! m)]"
  proof (rule nth_equalityI)
    show "length row2 = length (map (\<lambda>j. godunov_cell dtdx apdq amdq LL UL m j (q ! m ! j)) [0..<length (q ! m)])"
      by (simp add: row2_def lrow1)
  next
    fix j assume "j < length row2"
    then have j: "j < length (q ! m)" by (simp add: row2_def lrow1)
    let ?c1 = "LL \<le> j \<and> j < UL" and ?c2 = "LL \<le> j + 1 \<and> j + 1 < UL"
    have a: "r1 ! (j - LL) = dtdx ! j * get2 apdq m (j - 1)" if ?c1
    proof -
      have "r1 ! (j - LL) = dtdx ! (LL + (j - LL)) * (apdq ! m) ! (LL - 1 + (j - LL))"
        unfolding r1_def using assms that by (intro map2_slices_nth) auto
      moreover have "LL + (j - LL) = j" "LL - 1 + (j - LL) = j - 1" using assms that by auto
      ultimately show ?thesis by (simp add: get2_def)
    qed
    have b: "r2 ! (j - (LL - 1)) = dtdx ! j * get2 amdq m j" if ?c2
    proof -
      have "r2 ! (j - (LL - 1)) = dtdx ! (LL - 1 + (j - (LL - 1))) * (amdq ! m) ! (LL - 1 + (j - (LL - 1)))"
        unfolding r2_def using assms that by (intro map2_slices_nth) auto
      moreover have "LL - 1 + (j - (LL - 1)) = j" using assms that by auto
      ultimately show ?thesis by (simp add: get2_def)
    qed
    have c: "(LL - 1 \<le> j \<and> j < UL - 1) = ?c2"
      using assms by auto
    have r1: "row1 ! j = (if ?c1 then q ! m ! j - dtdx ! j * get2 apdq m (j - 1) else q ! m ! j)"
      using j a by (simp add: row1_def)
    have "row2 ! j = (if LL - 1 \<le> j \<and> j < UL - 1 then row1 ! j - r2 ! (j - (LL - 1)) else row1 ! j)"
      using j by (simp add: row2_def lrow1)
    also have "\<dots> = (if ?c2 then row1 ! j - dtdx ! j * get2 amdq m j else row1 ! j)"
      using b c by auto
    finally have "row2 ! j = godunov_cell dtdx apdq amdq LL UL m j (q ! m ! j)"
      by (simp add: r1 godunov_cell_def Let_def)
    then show "row2 ! j = map (\<lambda>j. godunov_cell dtdx apdq amdq LL UL m j (q ! m ! j)) [0..<length (q ! m)] ! j"
      using j by simp
  qed
  then show ?thesis
    using assms s1 s2 s3 s4 by (simp add: godunov_row_numpy_def)
qed

lemma godunov_update_compiled_length [simp]:
  "length (godunov_update_compiled dtdx apdq amdq k LL UL q) = length q"
  by (simp add: godunov_update_compiled_def)

lemma godunov_update_compiled_row_length [simp]:
  "length (godunov_update_compiled dtdx apdq amdq k LL UL q ! r) = length (q ! r)"
  by (simp add: godunov_update_compiled_def)

lemma array2_eqI:
  assumes "length a = length b" "\<And>r. r < length a \<Longrightarrow> length (a ! r) = length (b ! r)"
    "\<And>r j. r < length a \<Longrightarrow> j < length (a ! r) \<Longrightarrow> get2 a r j = get2 b r j"
  shows "a = b"
  using assms by (auto simp: get2_def intro!: nth_equalityI)

lemma godunov_rows_numpy_snoc:
  "godunov_rows_numpy dtdx apdq amdq LL UL (ms @ [m]) q =
     (case godunov_rows_numpy dtdx apdq amdq LL UL ms q of
        Inl e \<Rightarrow> Inl e
      | Inr q' \<Rightarrow> godunov_row_numpy dtdx apdq amdq LL UL m q')"
  by (induction ms arbitrary: q) (auto split: sum.splits)

lemma godunov_update_numpy_eq:
  assumes "1 \<le> LL" "LL \<le> UL" "UL \<le> length dtdx"
    "k \<le> length q" "k \<le> length apdq" "k \<le> length amdq"
    "\<forall>m<k. UL \<le> length (q ! m) \<and> UL - 1 \<le> length (apdq ! m) \<and> UL - 1 \<le> length (amdq ! m)"
  shows "godunov_update_numpy dtdx apdq amdq k LL UL q =
         Inr (godunov_update_compiled dtdx apdq amdq k LL UL q)"
  using assms(4-)
proof (induction k)
  case 0
  then show ?case by (simp add: godunov_update_numpy_def godunov_update_compiled_def)
next
  case (Suc k)
  let ?c = "godunov_update_compiled dtdx apdq amdq k LL UL q"
  let ?c' = "godunov_update_compiled dtdx apdq amdq (Suc k) LL UL q"
  have IH: "godunov_update_numpy dtdx apdq amdq k LL UL q = Inr ?c"
    using Suc by simp
  have shapes: "k \<le> length q" "\<forall>m<k. UL \<le> length (q ! m)"
     "Suc k \<le> length q" "\<forall>m<Suc k. UL \<le> length (q ! m)"
    using Suc.prems by auto
  have row: "godunov_row_numpy dtdx apdq amdq LL UL k ?c =
      Inr (?c[k := map (\<lambda>j. godunov_cell dtdx apdq amdq LL UL k j (?c ! k ! j)) [0..<length (?c ! k)]])"
    using assms(1-3) Suc.prems by (intro godunov_row_numpy_eq) simp_all
  have lu: "length (?c[k := map (\<lambda>j. godunov_cell dtdx apdq amdq LL UL k j (?c ! k ! j)) [0..<length (?c ! k)]] ! r)
      = length (q ! r)" for r
    by (cases "r = k"; cases "k < length q") (simp_all add: list_update_beyond)
  have "?c[k := map (\<lambda>j. godunov_cell dtdx apdq amdq LL UL k j (?c ! k ! j)) [0..<length (?c ! k)]] = ?c'"
  proof (rule array2_eqI)
    fix r j
    assume "r < length (?c[k := map (\<lambda>j. godunov_cell dtdx apdq amdq LL UL k j (?c ! k ! j)) [0..<length (?c ! k)]])"
      and "j < length (?c[k := map (\<lambda>j. godunov_cell dtdx apdq amdq LL UL k j (?c ! k ! j)) [0..<length (?c ! k)]] ! r)"
    then have rj: "r < length q" "j < length (q ! r)"
      using lu [of r] by simp_all
    have "?c ! k ! j = q ! k ! j"
      using godunov_outer_get2 [OF assms(1,2) shapes(1,2), of dtdx apdq amdq k j] by (simp add: get2_def)
    then show "get2 (?c[k := map (\<lambda>j. godunov_cell dtdx apdq amdq LL UL k j (?c ! k ! j)) [0..<length (?c ! k)]]) r j
        = get2 ?c' r j"
      using rj godunov_outer_get2 [OF assms(1,2) shapes(1,2), of dtdx apdq amdq r j]
        godunov_outer_get2 [OF assms(1,2) shapes(3,4), of dtdx apdq amdq r j]
      by (auto simp: get2_def nth_list_update less_Suc_eq)
  qed (use lu in simp_all)
  then show ?case
    using IH row by (simp add: godunov_update_numpy_def godunov_rows_numpy_snoc)
qed

lemma godunov_update_compiled_empty:
  assumes "UL \<le> LL"
  shows "godunov_update_compiled dtdx apdq amdq k LL UL q = q"
proof -
  have "fold (\<lambda>m. fold (godunov_body dtdx apdq amdq m) []) ms q = q" for ms
    by (induction ms) simp_all
  then show ?thesis using assms by (simp add: godunov_update_compiled_def)
qed

lemma godunov_cell_empty:
  assumes "UL \<le> LL"
  shows "godunov_cell dtdx apdq amdq LL UL m j v = v"
proof -
  have "\<not> (LL \<le> j \<and> j < UL)" "\<not> (LL \<le> j + 1 \<and> j + 1 < UL)"
    using assms by arith+
  then show ?thesis by (simp only: godunov_cell_def Let_def if_False)
qed

subsection \<open>Claims about the Godunov update\<close>

text \<open>
  C1. For \<open>1 \<le> LL\<close> and an array \<open>q\<close> with at least \<open>num_eqn\<close> rows of at least
  \<open>UL\<close> cells, \<^verbatim>\<open>godunov_update\<close> runs the compiled double loop, and the statements
  \<^verbatim>\<open>q[m,n] -= dtdx[n] * apdq[m,n-1]\<close> and \<^verbatim>\<open>q[m,n-1] -= dtdx[n-1] * amdq[m,n-1]\<close>,
  executed for every \<open>m < num_eqn\<close> and every \<open>n\<close> in \<open>[LL, UL)\<close>, leave in each cell
  \<open>(m, j)\<close> exactly the old value minus \<open>dtdx[j] * apdq[m,j-1]\<close> (when \<open>LL \<le> j < UL\<close>)
  minus \<open>dtdx[j] * amdq[m,j]\<close> (when \<open>LL \<le> j + 1 < UL\<close>), in this order. No cell with
  \<open>j\<close> outside \<open>[LL - 1, UL)\<close> and no row \<open>m \<ge> num_eqn\<close> changes, and the shape of \<open>q\<close>
  is kept. The scalar type is arbitrary: no law of arithmetic is used.
\<close>

theorem godunov_update_exact:
  assumes "1 \<le> LL" "num_eqn \<le> length q" "\<forall>m<num_eqn. UL \<le> length (q ! m)"
  shows "godunov_update dtdx apdq amdq num_eqn LL UL q =
            Inr (godunov_update_compiled dtdx apdq amdq num_eqn LL UL q)
       \<and> get2 (godunov_update_compiled dtdx apdq amdq num_eqn LL UL q) m j =
           (if m < num_eqn then godunov_cell dtdx apdq amdq LL UL m j (get2 q m j) else get2 q m j)
       \<and> (\<not> (m < num_eqn \<and> LL - 1 \<le> j \<and> j < UL) \<longrightarrow>
            get2 (godunov_update_compiled dtdx apdq amdq num_eqn LL UL q) m j = get2 q m j)
       \<and> length (godunov_update_compiled dtdx apdq amdq num_eqn LL UL q) = length q
       \<and> length (godunov_update_compiled dtdx apdq amdq num_eqn LL UL q ! m) = length (q ! m)"
proof -
  have cell: "get2 (godunov_update_compiled dtdx apdq amdq num_eqn LL UL q) m j =
           (if m < num_eqn then godunov_cell dtdx apdq amdq LL UL m j (get2 q m j) else get2 q m j)"
  proof (cases "LL \<le> UL")
    case True
    then show ?thesis by (rule godunov_outer_get2 [OF assms(1) _ assms(2,3)])
  next
    case False
    then show ?thesis
      by (simp add: godunov_update_compiled_empty godunov_cell_empty)
  qed
  have frame: "godunov_cell dtdx apdq amdq LL UL m j (get2 q m j) = get2 q m j"
    if "\<not> (LL - 1 \<le> j \<and> j < UL)"
    using that assms(1) by (auto simp: godunov_cell_def Let_def)
  show ?thesis
    using cell frame by (auto simp: godunov_update_def use_cython_def)
qed

theorem godunov_update_exact_witness:
  "(1::nat) \<le> 1 \<and> 1 \<le> length [[10, 20, 30, 40, 50 :: int]]
   \<and> 4 \<le> length ([[10, 20, 30, 40, 50 :: int]] ! 0)
   \<and> get2 (godunov_update_compiled [1, 2, 3, 4, 5] [[1, 1, 1, 1]] [[2, 2, 2, 2]] 1 1 4
              [[10, 20, 30, 40, 50 :: int]]) 0 2 = 30 - 3 * 1 - 3 * 2
   \<and> \<not> ((0::nat) < 1 \<and> (1::nat) - 1 \<le> 4 \<and> (4::nat) < 4)
   \<and> get2 (godunov_update_compiled [1, 2, 3, 4, 5] [[1, 1, 1, 1]] [[2, 2, 2, 2]] 1 1 4
              [[10, 20, 30, 40, 50 :: int]]) 0 4 = 50"
proof -
  have h: "(1::nat) \<le> 1" "1 \<le> length [[10, 20, 30, 40, 50 :: int]]"
    "\<forall>m<1. 4 \<le> length ([[10, 20, 30, 40, 50 :: int]] ! m)"
    by simp_all
  have a: "get2 (godunov_update_compiled [1, 2, 3, 4, 5] [[1, 1, 1, 1]] [[2, 2, 2, 2]] 1 1 4
              [[10, 20, 30, 40, 50 :: int]]) 0 2 = 30 - 3 * 1 - 3 * 2"
    using godunov_update_exact [OF h, of "[1, 2, 3, 4, 5]" "[[1, 1, 1, 1]]" "[[2, 2, 2, 2]]" 0 2]
    by (simp add: godunov_cell_def get2_def)
  have b: "get2 (godunov_update_compiled [1, 2, 3, 4, 5] [[1, 1, 1, 1]] [[2, 2, 2, 2]] 1 1 4
              [[10, 20, 30, 40, 50 :: int]]) 0 4 = 50"
    using godunov_update_exact [OF h, of "[1, 2, 3, 4, 5]" "[[1, 1, 1, 1]]" "[[2, 2, 2, 2]]" 0 4]
    by (simp add: get2_def)
  show ?thesis using h a b by simp
qed

text \<open>
  C10. For \<open>1 \<le> LL \<le> UL \<le> length dtdx\<close> and arrays \<open>q\<close>, \<open>apdq\<close>, \<open>amdq\<close> with at least
  \<open>num_eqn\<close> rows, of at least \<open>UL\<close> cells in \<open>q\<close> and \<open>UL - 1\<close> interfaces in the
  fluctuations, the array-expression branch of \<^verbatim>\<open>godunov_update\<close> raises nothing and
  leaves \<open>q\<close> in the state the compiled double loop leaves it in.
\<close>

theorem godunov_update_numpy_compiled:
  assumes "1 \<le> LL" "LL \<le> UL" "UL \<le> length dtdx"
    "num_eqn \<le> length q" "num_eqn \<le> length apdq" "num_eqn \<le> length amdq"
    "\<forall>m<num_eqn. UL \<le> length (q ! m) \<and> UL - 1 \<le> length (apdq ! m) \<and> UL - 1 \<le> length (amdq ! m)"
  shows "godunov_update_numpy dtdx apdq amdq num_eqn LL UL q =
         Inr (godunov_update_compiled dtdx apdq amdq num_eqn LL UL q)"
  by (rule godunov_update_numpy_eq [OF assms])

theorem godunov_update_numpy_compiled_witness:
  "(1::nat) \<le> 1 \<and> (1::nat) \<le> 4 \<and> 4 \<le> length [1, 2, 3, 4, 5 :: int]
   \<and> 1 \<le> length [[10, 20, 30, 40, 50 :: int]] \<and> 1 \<le> length [[1, 1, 1, 1 :: int]]
   \<and> 1 \<le> length [[2, 2, 2, 2 :: int]]
   \<and> 4 \<le> length ([[10, 20, 30, 40, 50 :: int]] ! 0) \<and> 4 - 1 \<le> length ([[1, 1, 1, 1 :: int]] ! 0)
   \<and> 4 - 1 \<le> length ([[2, 2, 2, 2 :: int]] ! 0)
   \<and> godunov_update_numpy [1, 2, 3, 4, 5] [[1, 1, 1, 1]] [[2, 2, 2, 2]] 1 1 4 [[10, 20, 30, 40, 50 :: int]]
       = Inr [[8, 14, 21, 36, 50]]"
proof -
  have h: "(1::nat) \<le> 1" "(1::nat) \<le> 4" "4 \<le> length [1, 2, 3, 4, 5 :: int]"
    "1 \<le> length [[10, 20, 30, 40, 50 :: int]]" "1 \<le> length [[1, 1, 1, 1 :: int]]"
    "1 \<le> length [[2, 2, 2, 2 :: int]]"
    "\<forall>m<1. 4 \<le> length ([[10, 20, 30, 40, 50 :: int]] ! m) \<and> 4 - 1 \<le> length ([[1, 1, 1, 1 :: int]] ! m)
          \<and> 4 - 1 \<le> length ([[2, 2, 2, 2 :: int]] ! m)"
    by simp_all
  have c: "godunov_update_compiled [1, 2, 3, 4, 5] [[1, 1, 1, 1]] [[2, 2, 2, 2]] 1 1 4
             [[10, 20, 30, 40, 50 :: int]] = [[8, 14, 21, 36, 50]]"
    by (simp add: godunov_update_compiled_def godunov_body_def get2_def set2_def upt_rec)
  show ?thesis
    using h godunov_update_numpy_compiled [OF h] c by simp
qed

section \<open>Properties of the CFL computation\<close>

lemma py_max2_max: "py_max2 a b = max a b"
  by (auto simp: py_max2_def max_def)

lemma py_max3_max: "py_max3 a b c = max (max a b) c"
  by (simp add: py_max3_def py_max2_max)

lemma fold_nested_product:
  "fold (\<lambda>mw. fold (f mw) ns) ms st = fold (\<lambda>p. f (fst p) (snd p)) (List.product ms ns) st"
proof (induction ms arbitrary: st)
  case Nil
  then show ?case by simp
next
  case (Cons m ms)
  have "fold (\<lambda>p. f (fst p) (snd p)) (map (Pair m) ns) st = fold (f m) ns st" for st
    by (induction ns arbitrary: st) simp_all
  then show ?case using Cons by simp
qed

lemma max_wave_speed_body_eq:
  "max_wave_speed_body dtdx s (fst p) (snd p) (c, a, b) =
     (max c (max (max a (cfl_right dtdx s p)) (max b (cfl_left dtdx s p))),
      max a (cfl_right dtdx s p), max b (cfl_left dtdx s p))"
  by (simp add: max_wave_speed_body_def py_max2_max py_max3_max cfl_right_def cfl_left_def
      Let_def max.assoc)

lemma max_wave_speed_fold:
  "fold (\<lambda>p. max_wave_speed_body dtdx s (fst p) (snd p)) ps (c, a, b) =
     ((if ps = [] then c
       else max c (max (Max (insert a (cfl_right dtdx s ` set ps)))
                       (Max (insert b (cfl_left dtdx s ` set ps))))),
      Max (insert a (cfl_right dtdx s ` set ps)),
      Max (insert b (cfl_left dtdx s ` set ps)))"
proof (induction ps arbitrary: c a b)
  case Nil
  then show ?case by simp
next
  case (Cons p ps)
  let ?a1 = "max a (cfl_right dtdx s p)" and ?b1 = "max b (cfl_left dtdx s p)"
  have A: "Max (insert ?a1 (cfl_right dtdx s ` set ps)) = Max (insert a (cfl_right dtdx s ` set (p # ps)))"
    by (cases "ps = []") (simp_all add: max.assoc max.commute max.left_commute)
  have B: "Max (insert ?b1 (cfl_left dtdx s ` set ps)) = Max (insert b (cfl_left dtdx s ` set (p # ps)))"
    by (cases "ps = []") (simp_all add: max.assoc max.commute max.left_commute)
  have a1: "?a1 \<le> Max (insert ?a1 (cfl_right dtdx s ` set ps))"
    and b1x: "?b1 \<le> Max (insert ?b1 (cfl_left dtdx s ` set ps))"
    by (rule Max_ge; simp)+
  define A' where "A' = Max (insert ?a1 (cfl_right dtdx s ` set ps))"
  define B' where "B' = Max (insert ?b1 (cfl_left dtdx s ` set ps))"
  have a1: "?a1 \<le> A'" and b1: "?b1 \<le> B'"
    unfolding A'_def B'_def by (rule Max_ge; simp)+
  have e: "ps = [] \<Longrightarrow> A' = ?a1 \<and> B' = ?b1"
    by (simp add: A'_def B'_def)
  have c: "(if ps = [] then max c (max ?a1 ?b1) else max (max c (max ?a1 ?b1)) (max A' B'))
       = max c (max A' B')"
  proof (cases "ps = []")
    case True
    then show ?thesis using e by simp
  next
    case False
    have "max ?a1 ?b1 \<le> max A' B'"
      using a1 b1 by (rule max.mono)
    then have "max (max ?a1 ?b1) (max A' B') = max A' B'"
      by (rule max_absorb2)
    then show ?thesis using False by (simp add: max.assoc)
  qed
  have "fold (\<lambda>p. max_wave_speed_body dtdx s (fst p) (snd p)) (p # ps) (c, a, b) =
        fold (\<lambda>p. max_wave_speed_body dtdx s (fst p) (snd p)) ps (max c (max ?a1 ?b1), ?a1, ?b1)"
    by (simp add: max_wave_speed_body_eq)
  also have "\<dots> = ((if ps = [] then max c (max ?a1 ?b1) else max (max c (max ?a1 ?b1)) (max A' B')), A', B')"
    unfolding A'_def B'_def by (rule Cons.IH)
  also have "\<dots> = (max c (max A' B'), A', B')"
    by (simp only: c)
  finally show ?case
    unfolding A'_def B'_def A B by simp
qed

lemma cfl_accumulate_fold:
  "fold (\<lambda>p c. max (max c (cfl_right dtdx s p)) (cfl_left dtdx s p)) ps c =
     Max (insert c (cfl_right dtdx s ` set ps \<union> cfl_left dtdx s ` set ps))"
proof (induction ps arbitrary: c)
  case Nil
  then show ?case by simp
next
  case (Cons p ps)
  let ?S = "cfl_right dtdx s ` set ps \<union> cfl_left dtdx s ` set ps"
  have fin: "finite ?S" by simp
  have "Max (insert (max (max c (cfl_right dtdx s p)) (cfl_left dtdx s p)) ?S)
      = Max (insert c (insert (cfl_right dtdx s p) (insert (cfl_left dtdx s p) ?S)))"
    using fin by (cases "?S = {}") (simp_all add: max.assoc max.commute max.left_commute)
  also have "insert c (insert (cfl_right dtdx s p) (insert (cfl_left dtdx s p) ?S))
      = insert c (cfl_right dtdx s ` set (p # ps) \<union> cfl_left dtdx s ` set (p # ps))"
    by auto
  finally show ?case using Cons.IH by simp
qed

lemma cfl_accumulate_product:
  "cfl_accumulate wave dtdx s LL UL =
     fold (\<lambda>p c. max (max c (cfl_right dtdx s p)) (cfl_left dtdx s p))
       (List.product [0..<shape1 wave] [LL..<UL]) 0"
  unfolding cfl_accumulate_def fold_nested_product
  by (simp add: cfl_right_def cfl_left_def)

lemma max_wave_speed_compiled_product:
  "compute_max_wave_speed_compiled wave dtdx s LL UL =
     fst (fold (\<lambda>p. max_wave_speed_body dtdx s (fst p) (snd p))
            (List.product [0..<shape1 wave] [LL..<UL])
            (0, cfl_right dtdx s (0, LL), cfl_left dtdx s (0, LL)))"
  unfolding compute_max_wave_speed_compiled_def fold_nested_product
  by (simp add: cfl_right_def cfl_left_def)

lemma max_wave_speed_compiled_nonneg:
  "0 \<le> compute_max_wave_speed_compiled wave dtdx s LL UL"
  unfolding max_wave_speed_compiled_product max_wave_speed_fold by simp

lemma max_wave_speed_compiled_accumulate:
  assumes "LL < UL" "1 \<le> shape1 wave"
  shows "compute_max_wave_speed_compiled wave dtdx s LL UL = cfl_accumulate wave dtdx s LL UL"
proof -
  let ?ps = "List.product [0..<shape1 wave] [LL..<UL]"
  let ?R = "cfl_right dtdx s ` set ?ps" and ?L = "cfl_left dtdx s ` set ?ps"
  have mem: "(0, LL) \<in> set ?ps" using assms by simp
  have ne: "?ps \<noteq> []"
  proof
    assume "?ps = []"
    then have "set ?ps = {}" by (simp only: list.set)
    with mem show False by (simp only: empty_iff)
  qed
  have R: "insert (cfl_right dtdx s (0, LL)) ?R = ?R" and L: "insert (cfl_left dtdx s (0, LL)) ?L = ?L"
    using mem by (auto intro: imageI)
  have neR: "?R \<noteq> {}" and neL: "?L \<noteq> {}"
    using ne by (simp_all only: image_is_empty set_empty not_False_eq_True)
  have "compute_max_wave_speed_compiled wave dtdx s LL UL = max 0 (max (Max ?R) (Max ?L))"
    unfolding max_wave_speed_compiled_product max_wave_speed_fold using ne by (simp only: R L fst_conv if_False)
  also have "max (Max ?R) (Max ?L) = Max (?R \<union> ?L)"
    using neR neL by (intro Max_Un [symmetric]) simp_all
  also have "max 0 (Max (?R \<union> ?L)) = Max (insert 0 (?R \<union> ?L))"
    using neR by (intro Max_insert [symmetric]) simp_all
  finally show ?thesis
    by (simp only: cfl_accumulate_product cfl_accumulate_fold)
qed


text \<open>
  C3. With at least one wave family, \<open>1 \<le> LL < UL\<close> and the indices inside the arrays,
  \<^verbatim>\<open>compute_max_wave_speed\<close> returns the value of the accumulation
  \<open>cfl = max(cfl, dtdx[n] * s[mw,n-1], -dtdx[n-1] * s[mw,n-1])\<close> started at \<open>0\<close> and
  run over every wave family and every interface of \<open>[LL, UL)\<close>, and that value is the
  maximum of \<open>0\<close> and all these terms. The scalars are any linear order.
\<close>

theorem compute_max_wave_speed_accumulates:
  assumes "1 \<le> LL" "LL < UL" "1 \<le> shape1 wave" "UL \<le> length dtdx"
    "shape1 wave \<le> length s" "\<forall>mw<shape1 wave. UL - 1 \<le> length (s ! mw)"
  shows "compute_max_wave_speed wave dtdx s LL UL = Inr (cfl_accumulate wave dtdx s LL UL)
       \<and> cfl_accumulate wave dtdx s LL UL =
           Max (insert 0 (cfl_right dtdx s ` ({0..<shape1 wave} \<times> {LL..<UL})
                          \<union> cfl_left dtdx s ` ({0..<shape1 wave} \<times> {LL..<UL})))"
proof -
  have "compute_max_wave_speed wave dtdx s LL UL = Inr (cfl_accumulate wave dtdx s LL UL)"
    using max_wave_speed_compiled_accumulate [OF assms(2,3)]
    by (simp add: compute_max_wave_speed_def use_cython_def)
  moreover have "cfl_accumulate wave dtdx s LL UL =
           Max (insert 0 (cfl_right dtdx s ` ({0..<shape1 wave} \<times> {LL..<UL})
                          \<union> cfl_left dtdx s ` ({0..<shape1 wave} \<times> {LL..<UL})))"
    by (simp only: cfl_accumulate_product cfl_accumulate_fold set_product set_upt)
  ultimately show ?thesis by simp
qed

theorem compute_max_wave_speed_accumulates_witness:
  "(1::nat) \<le> 1 \<and> (1::nat) < 4 \<and> 1 \<le> shape1 [[[1, 1, 1, 1 :: int]]] \<and> 4 \<le> length [1, 2, 3, 4, 5 :: int]
   \<and> shape1 [[[1, 1, 1, 1 :: int]]] \<le> length [[- 1, 2, - 3, 1 :: int]]
   \<and> 4 - 1 \<le> length ([[- 1, 2, - 3, 1 :: int]] ! 0)
   \<and> compute_max_wave_speed [[[1, 1, 1, 1]]] [1, 2, 3, 4, 5] [[- 1, 2, - 3, 1 :: int]] 1 4 = Inr 9"
proof -
  have h: "(1::nat) \<le> 1" "(1::nat) < 4" "1 \<le> shape1 [[[1, 1, 1, 1 :: int]]]"
    "4 \<le> length [1, 2, 3, 4, 5 :: int]"
    "shape1 [[[1, 1, 1, 1 :: int]]] \<le> length [[- 1, 2, - 3, 1 :: int]]"
    "\<forall>mw<shape1 [[[1, 1, 1, 1 :: int]]]. 4 - 1 \<le> length ([[- 1, 2, - 3, 1 :: int]] ! mw)"
    by (simp_all add: shape1_def)
  have v: "cfl_accumulate [[[1, 1, 1, 1]]] [1, 2, 3, 4, 5] [[- 1, 2, - 3, 1 :: int]] 1 4 = 9"
    by (simp add: cfl_accumulate_def shape1_def get2_def upt_rec)
  show ?thesis
    using h(1-5) compute_max_wave_speed_accumulates [OF h] v by simp
qed

text \<open>
  C8. With \<open>1 \<le> LL \<le> UL\<close>, at least one wave family and the indices inside the arrays,
  \<^verbatim>\<open>compute_max_wave_speed\<close> returns a value that is not negative, whatever the
  speeds are and also when the range \<open>[LL, UL)\<close> is empty: the seeds of \<open>smax1\<close> and
  \<open>smax2\<close> only enter the result through a maximum with \<open>cfl\<close>, which starts at \<open>0\<close>.
\<close>

theorem compute_max_wave_speed_nonneg:
  assumes "1 \<le> LL" "LL \<le> UL" "1 \<le> shape1 wave" "LL < length dtdx" "UL \<le> length dtdx"
    "shape1 wave \<le> length s" "\<forall>mw<shape1 wave. LL \<le> length (s ! mw) \<and> UL - 1 \<le> length (s ! mw)"
  shows "compute_max_wave_speed wave dtdx s LL UL = Inr (compute_max_wave_speed_compiled wave dtdx s LL UL)
       \<and> 0 \<le> compute_max_wave_speed_compiled wave dtdx s LL UL"
  using max_wave_speed_compiled_nonneg [of wave dtdx s LL UL]
  by (simp add: compute_max_wave_speed_def use_cython_def)

theorem compute_max_wave_speed_nonneg_witness:
  "(1::nat) \<le> 2 \<and> (2::nat) \<le> 2 \<and> 1 \<le> shape1 [[[1, 1, 1, 1 :: int]]] \<and> 2 < length [1, 2, 3, 4, 5 :: int]
   \<and> 2 \<le> length [1, 2, 3, 4, 5 :: int]
   \<and> shape1 [[[1, 1, 1, 1 :: int]]] \<le> length [[- 1, - 2, - 3, - 1 :: int]]
   \<and> 2 \<le> length ([[- 1, - 2, - 3, - 1 :: int]] ! 0)
   \<and> compute_max_wave_speed [[[1, 1, 1, 1]]] [1, 2, 3, 4, 5] [[- 1, - 2, - 3, - 1 :: int]] 2 2 = Inr 0
   \<and> (0::int) \<le> compute_max_wave_speed_compiled [[[1, 1, 1, 1]]] [1, 2, 3, 4, 5] [[- 1, - 2, - 3, - 1 :: int]] 2 2"
proof -
  have h: "(1::nat) \<le> 2" "(2::nat) \<le> 2" "1 \<le> shape1 [[[1, 1, 1, 1 :: int]]]"
    "2 < length [1, 2, 3, 4, 5 :: int]" "2 \<le> length [1, 2, 3, 4, 5 :: int]"
    "shape1 [[[1, 1, 1, 1 :: int]]] \<le> length [[- 1, - 2, - 3, - 1 :: int]]"
    "\<forall>mw<shape1 [[[1, 1, 1, 1 :: int]]]. 2 \<le> length ([[- 1, - 2, - 3, - 1 :: int]] ! mw)
        \<and> 2 - 1 \<le> length ([[- 1, - 2, - 3, - 1 :: int]] ! mw)"
    by (simp_all add: shape1_def)
  have v: "compute_max_wave_speed_compiled [[[1, 1, 1, 1]]] [1, 2, 3, 4, 5] [[- 1, - 2, - 3, - 1 :: int]] 2 2 = 0"
    by (simp add: compute_max_wave_speed_compiled_def shape1_def)
  show ?thesis
    using h(1-6) compute_max_wave_speed_nonneg [OF h] v by simp
qed

section \<open>Properties of the step driver\<close>

lemma step_to_hyperbolic_last:
  "last (snd (step_to_hyperbolic cfg get_dt hyp v)) = Hyperbolic"
  by (simp add: step_to_hyperbolic_def Let_def)


text \<open>
  C2, as the code has it. \<^verbatim>\<open>step\<close> returns \<^verbatim>\<open>True\<close> exactly when the CFL number the
  tracker holds after the hyperbolic step is strictly below \<^verbatim>\<open>cfl_max\<close>; the test is
  \<^verbatim>\<open>>=\<close>, so a CFL number equal to \<^verbatim>\<open>cfl_max\<close> is rejected. When it returns
  \<^verbatim>\<open>False\<close> the variables and the list of calls are those right after the hyperbolic
  step, whose last call is the hyperbolic step itself: no source step follows it.
\<close>

theorem step_accepts_below_cfl_max:
  "fst (step cfg get_dt hyp v) =
      (get_cached_max (fst (step_to_hyperbolic cfg get_dt hyp v)) < cfl_max cfg)
   \<and> (\<not> fst (step cfg get_dt hyp v) \<longrightarrow>
        snd (step cfg get_dt hyp v) = step_to_hyperbolic cfg get_dt hyp v
        \<and> last (snd (snd (step cfg get_dt hyp v))) = Hyperbolic)"
  using step_to_hyperbolic_last [of cfg get_dt hyp v]
  by (auto simp: step_def Let_def split: option.splits)

theorem step_accepts_below_cfl_max_witness:
  "step \<lparr>source_split = 1, step_source = Some idle_source, cfl_max = 1\<rparr>
        (get_dt_const (1 / 10)) (hyperbolic_reporting (3 / 2)) \<lparr>dt = 0, cfl = 0, state0 = ()\<rparr>
     = (False, \<lparr>dt = 1 / 10, cfl = 3 / 2, state0 = ()\<rparr>, [Hyperbolic])
   \<and> \<not> fst (step \<lparr>source_split = 1, step_source = Some idle_source, cfl_max = 1\<rparr>
        (get_dt_const (1 / 10)) (hyperbolic_reporting (3 / 2)) \<lparr>dt = 0, cfl = 0, state0 = ()\<rparr>)
   \<and> snd (step \<lparr>source_split = 1, step_source = Some idle_source, cfl_max = 1\<rparr>
        (get_dt_const (1 / 10)) (hyperbolic_reporting (3 / 2)) \<lparr>dt = 0, cfl = 0, state0 = ()\<rparr>)
      = step_to_hyperbolic \<lparr>source_split = 1, step_source = Some idle_source, cfl_max = 1\<rparr>
        (get_dt_const (1 / 10)) (hyperbolic_reporting (3 / 2)) \<lparr>dt = 0, cfl = 0, state0 = ()\<rparr>"
proof -
  have s: "step_to_hyperbolic \<lparr>source_split = 1, step_source = Some idle_source, cfl_max = 1\<rparr>
        (get_dt_const (1 / 10)) (hyperbolic_reporting (3 / 2)) \<lparr>dt = 0, cfl = 0, state0 = ()\<rparr>
     = (\<lparr>dt = 1 / 10, cfl = 3 / 2, state0 = ()\<rparr>, [Hyperbolic])"
    by (simp add: step_to_hyperbolic_def get_dt_const_def hyperbolic_reporting_def
        set_global_max_def update_global_max_def)
  show ?thesis
    using step_accepts_below_cfl_max [of "\<lparr>source_split = 1, step_source = Some idle_source, cfl_max = 1\<rparr>"
        "get_dt_const (1 / 10)" "hyperbolic_reporting (3 / 2)" "\<lparr>dt = 0, cfl = 0, state0 = ()\<rparr>"]
    by (simp add: s get_cached_max_def prod_eq_iff)
qed


text \<open>
  C2, as the claim states it, fails when the measured CFL number equals \<^verbatim>\<open>cfl_max\<close>:
  with \<^verbatim>\<open>cfl_max = 1\<close> and a hyperbolic step reporting \<open>1\<close> the step is rejected
  although the CFL number does not exceed the maximum.
\<close>

theorem step_cfl_equal_counterexample:
  "\<not> (fst (step \<lparr>source_split = 1, step_source = None, cfl_max = 1\<rparr>
              (get_dt_const (1 / 10)) (hyperbolic_reporting 1) \<lparr>dt = 0, cfl = 0, state0 = ()\<rparr>)
       = (get_cached_max (fst (step_to_hyperbolic \<lparr>source_split = 1, step_source = None, cfl_max = 1\<rparr>
              (get_dt_const (1 / 10)) (hyperbolic_reporting 1) \<lparr>dt = 0, cfl = 0, state0 = ()\<rparr>))
          \<le> cfl_max \<lparr>source_split = 1, step_source = None, cfl_max = 1\<rparr>))"
  by (simp add: step_def step_to_hyperbolic_def get_dt_const_def hyperbolic_reporting_def
        set_global_max_def update_global_max_def get_cached_max_def)


text \<open>
  C6. For a hyperbolic step that leaves \<^verbatim>\<open>self.dt\<close> alone, and with \<open>d\<close> the step size
  \<^verbatim>\<open>get_dt\<close> has chosen, the calls \<^verbatim>\<open>step\<close> makes are: without a source term the
  hyperbolic step only; with Strang splitting a source step of \<open>d / 2\<close>, the hyperbolic
  step and, when the CFL check passes, a second source step of \<open>d / 2\<close>; with Godunov
  splitting the hyperbolic step and, when the CFL check passes, one source step of \<open>d\<close>.
\<close>

theorem step_source_calls:
  assumes "\<forall>w. dt (hyp w) = dt w"
  shows "snd (snd (step cfg get_dt hyp v)) =
    (let d = dt (get_dt v); ok = fst (step cfg get_dt hyp v) in
     case step_source cfg of
       None \<Rightarrow> [Hyperbolic]
     | Some src \<Rightarrow>
         if source_split cfg = 2
         then (if ok then [SourceStep (d / 2), Hyperbolic, SourceStep (d / 2)]
               else [SourceStep (d / 2), Hyperbolic])
         else if source_split cfg = 1
         then (if ok then [Hyperbolic, SourceStep d] else [Hyperbolic])
         else [Hyperbolic])"
  using assms
  by (auto simp: step_def step_to_hyperbolic_def call_step_source_def set_global_max_def Let_def
      split: option.splits)

theorem step_source_calls_witness:
  "snd (snd (step \<lparr>source_split = 2, step_source = Some idle_source, cfl_max = 1\<rparr>
        (get_dt_const (1 / 10)) (hyperbolic_reporting (1 / 2)) \<lparr>dt = 0, cfl = 0, state0 = ()\<rparr>))
     = [SourceStep (1 / 20), Hyperbolic, SourceStep (1 / 20)]
   \<and> snd (snd (step \<lparr>source_split = 1, step_source = Some idle_source, cfl_max = 1\<rparr>
        (get_dt_const (1 / 10)) (hyperbolic_reporting (1 / 2)) \<lparr>dt = 0, cfl = 0, state0 = ()\<rparr>))
     = [Hyperbolic, SourceStep (1 / 10)]
   \<and> snd (snd (step \<lparr>source_split = 2, step_source = None, cfl_max = 1\<rparr>
        (get_dt_const (1 / 10)) (hyperbolic_reporting (1 / 2)) \<lparr>dt = 0, cfl = 0, state0 = ()\<rparr>))
     = [Hyperbolic]"
proof -
  have h: "\<forall>w :: unit solver_vars. dt (hyperbolic_reporting (1 / 2) w) = dt w"
    by (simp add: hyperbolic_reporting_def update_global_max_def)
  have ok: "fst (step \<lparr>source_split = 2, step_source = Some idle_source, cfl_max = 1\<rparr>
        (get_dt_const (1 / 10)) (hyperbolic_reporting (1 / 2)) \<lparr>dt = 0, cfl = 0, state0 = ()\<rparr>)"
     "fst (step \<lparr>source_split = 1, step_source = Some idle_source, cfl_max = 1\<rparr>
        (get_dt_const (1 / 10)) (hyperbolic_reporting (1 / 2)) \<lparr>dt = 0, cfl = 0, state0 = ()\<rparr>)"
    by (simp_all add: step_def step_to_hyperbolic_def call_step_source_def get_dt_const_def
        hyperbolic_reporting_def set_global_max_def update_global_max_def get_cached_max_def)
  have d: "dt (get_dt_const (1 / 10) \<lparr>dt = 0, cfl = 0, state0 = ()\<rparr>) = 1 / 10"
    by (simp add: get_dt_const_def)
  show ?thesis
    using step_source_calls [OF h, of "\<lparr>source_split = 2, step_source = Some idle_source, cfl_max = 1\<rparr>"
            "get_dt_const (1 / 10)" "\<lparr>dt = 0, cfl = 0, state0 = ()\<rparr>"]
          step_source_calls [OF h, of "\<lparr>source_split = 1, step_source = Some idle_source, cfl_max = 1\<rparr>"
            "get_dt_const (1 / 10)" "\<lparr>dt = 0, cfl = 0, state0 = ()\<rparr>"]
          step_source_calls [OF h, of "\<lparr>source_split = 2, step_source = None, cfl_max = 1\<rparr>"
            "get_dt_const (1 / 10)" "\<lparr>dt = 0, cfl = 0, state0 = ()\<rparr>"]
    by (simp add: ok d)
qed

section \<open>Properties of the limiter specification\<close>

text \<open>
  C7. For a number of wave families \<open>num_waves \<ge> 0\<close>, \<^verbatim>\<open>_set_mthlim\<close> replicates a
  non-list value or the element of a list of length one \<open>num_waves\<close> times, keeps a
  list of length \<open>num_waves\<close> as it is, and raises for a list of any other length;
  whenever it returns, the result has exactly \<open>num_waves\<close> entries.
\<close>

theorem set_mthlim_resolves:
  assumes "0 \<le> num_waves"
  shows "set_mthlim lims num_waves =
     (case lims of
        NonList x \<Rightarrow> Inr (replicate (nat num_waves) x)
      | PyList xs \<Rightarrow>
          if length xs = 1 then Inr (replicate (nat num_waves) (hd xs))
          else if int (length xs) = num_waves then Inr xs
          else Inl (Exception ''Length of solver.limiters is not equal to 1 or to solver.num_waves''))
     \<and> (case set_mthlim lims num_waves of Inr r \<Rightarrow> int (length r) = num_waves | Inl e \<Rightarrow> True)"
proof -
  have c: "concat (replicate n [x]) = replicate n x" for n and x :: 'a
    by (induction n) simp_all
  have one: "length xs = 1 \<Longrightarrow> xs = [hd xs]" for xs :: "'a list"
    by (cases xs) simp_all
  show ?thesis
  proof (cases lims)
    case (NonList x)
    then show ?thesis using assms by (simp add: set_mthlim_def c)
  next
    case (PyList xs)
    show ?thesis
    proof (cases "length xs = 1")
      case True
      then have "xs = [hd xs]" by (rule one)
      then have "concat (replicate (nat num_waves) xs) = replicate (nat num_waves) (hd xs)"
        using c [of "nat num_waves" "hd xs"] by simp
      then show ?thesis using PyList True assms by (simp add: set_mthlim_def)
    next
      case False
      then show ?thesis using PyList assms by (simp add: set_mthlim_def)
    qed
  qed
qed


theorem set_mthlim_resolves_witness:
  "(0::int) \<le> 2
   \<and> set_mthlim (NonList (3::nat)) 2 = Inr [3, 3]
   \<and> set_mthlim (PyList [7::nat]) 2 = Inr [7, 7]
   \<and> set_mthlim (PyList [1, 4 :: nat]) 2 = Inr [1, 4]
   \<and> set_mthlim (PyList [1, 2, 3 :: nat]) 2 =
        Inl (Exception ''Length of solver.limiters is not equal to 1 or to solver.num_waves'')"
proof -
  have h: "(0::int) \<le> 2" by simp
  have r: "replicate 2 x = [x, x]" for x :: nat
    by (simp add: numeral_2_eq_2)
  show ?thesis
    using set_mthlim_resolves [OF h, of "NonList (3::nat)"]
          set_mthlim_resolves [OF h, of "PyList [7::nat]"]
          set_mthlim_resolves [OF h, of "PyList [1, 4 :: nat]"]
          set_mthlim_resolves [OF h, of "PyList [1, 2, 3 :: nat]"]
    by (simp add: r)
qed

section \<open>Conservation of the Godunov update\<close>

lemma sum_telescope_int:
  fixes F :: "int \<Rightarrow> 'a::comm_ring_1"
  assumes "a \<le> u"
  shows "(\<Sum>i = a..<u. F (int i) - F (int i - 1)) = F (int u - 1) - F (int a - 1)"
  using assms
proof (induction u rule: dec_induct)
  case base
  then show ?case by simp
next
  case (step u)
  then show ?case by (simp add: algebra_simps)
qed

lemma godunov_cell_uniform:
  fixes c :: "'a::comm_ring_1"
  assumes "dtdx ! j = c"
  shows "godunov_cell dtdx apdq amdq LL UL m j v =
     v - c * (if LL \<le> j \<and> j < UL then get2 apdq m (j - 1) else 0)
       - c * (if LL \<le> j + 1 \<and> j + 1 < UL then get2 amdq m j else 0)"
  using assms by (simp add: godunov_cell_def Let_def)

lemma sum_right_fluctuations:
  fixes g :: "nat \<Rightarrow> 'a::comm_ring_1"
  assumes "a < UL"
  shows "(\<Sum>j = a..<UL. if Suc a \<le> j \<and> j < UL then g (j - 1) else 0) = (\<Sum>i = a..<UL - 1. g i)"
proof -
  obtain u where u: "UL = Suc u" using assms by (cases UL) auto
  have "(\<Sum>j = a..<UL. if Suc a \<le> j \<and> j < UL then g (j - 1) else 0)
      = (\<Sum>j = Suc a..<Suc u. if Suc a \<le> j \<and> j < UL then g (j - 1) else 0)"
    using assms u by (simp add: sum.atLeast_Suc_lessThan)
  also have "\<dots> = (\<Sum>j = Suc a..<Suc u. g (j - 1))"
    using u by (intro sum.cong) auto
  also have "\<dots> = (\<Sum>i = a..<u. g i)"
    by (simp only: sum.shift_bounds_Suc_ivl diff_Suc_1)
  finally show ?thesis using u by simp
qed

lemma sum_left_fluctuations:
  fixes g :: "nat \<Rightarrow> 'a::comm_ring_1"
  assumes "a < UL"
  shows "(\<Sum>j = a..<UL. if Suc a \<le> j + 1 \<and> j + 1 < UL then g j else 0) = (\<Sum>i = a..<UL - 1. g i)"
proof -
  obtain u where u: "UL = Suc u" using assms by (cases UL) auto
  have au: "a \<le> u" using assms u by simp
  have "(\<Sum>j = a..<Suc u. if Suc a \<le> j + 1 \<and> j + 1 < Suc u then g j else 0)
      = (\<Sum>j = a..<u. if Suc a \<le> j + 1 \<and> j + 1 < Suc u then g j else 0)"
    using au by (simp add: sum.atLeastLessThan_Suc)
  also have "\<dots> = (\<Sum>j = a..<u. g j)"
    by (intro sum.cong) auto
  finally show ?thesis using u by simp
qed

lemma godunov_touched_sum:
  fixes c :: "'a::comm_ring_1"
  assumes "1 \<le> LL" "LL \<le> UL" "num_eqn \<le> length q" "\<forall>m<num_eqn. UL \<le> length (q ! m)"
    "m < num_eqn" "\<forall>j\<in>{LL - 1..<UL}. dtdx ! j = c"
  shows "(\<Sum>j = LL - 1..<UL. get2 (godunov_update_compiled dtdx apdq amdq num_eqn LL UL q) m j)
       = (\<Sum>j = LL - 1..<UL. get2 q m j)
         - c * (\<Sum>i = LL - 1..<UL - 1. get2 amdq m i + get2 apdq m i)"
proof -
  let ?G = "godunov_update_compiled dtdx apdq amdq num_eqn LL UL q"
  let ?a = "LL - 1"
  have LL: "LL = Suc ?a" and a: "?a < UL" using assms(1,2) by simp_all
  have cell: "get2 ?G m j = get2 q m j
       - c * (if Suc ?a \<le> j \<and> j < UL then get2 apdq m (j - 1) else 0)
       - c * (if Suc ?a \<le> j + 1 \<and> j + 1 < UL then get2 amdq m j else 0)"
    if "j \<in> {?a..<UL}" for j
  proof -
    have "dtdx ! j = c" using assms(6) that by blast
    then show ?thesis
      using godunov_outer_get2 [OF assms(1-4), of dtdx apdq amdq m j] assms(5)
        godunov_cell_uniform [of dtdx j c apdq amdq LL UL m "get2 q m j"] LL
      by simp
  qed
  have "(\<Sum>j = ?a..<UL. get2 ?G m j)
      = (\<Sum>j = ?a..<UL. get2 q m j
           - c * (if Suc ?a \<le> j \<and> j < UL then get2 apdq m (j - 1) else 0)
           - c * (if Suc ?a \<le> j + 1 \<and> j + 1 < UL then get2 amdq m j else 0))"
    by (rule sum.cong [OF refl cell])
  also have "\<dots> = (\<Sum>j = ?a..<UL. get2 q m j)
      - c * (\<Sum>j = ?a..<UL. if Suc ?a \<le> j \<and> j < UL then get2 apdq m (j - 1) else 0)
      - c * (\<Sum>j = ?a..<UL. if Suc ?a \<le> j + 1 \<and> j + 1 < UL then get2 amdq m j else 0)"
    by (simp only: sum_subtractf sum_distrib_left)
  also have "\<dots> = (\<Sum>j = ?a..<UL. get2 q m j)
      - c * (\<Sum>i = ?a..<UL - 1. get2 apdq m i) - c * (\<Sum>i = ?a..<UL - 1. get2 amdq m i)"
    by (simp only: sum_right_fluctuations [OF a] sum_left_fluctuations [OF a])
  also have "\<dots> = (\<Sum>j = ?a..<UL. get2 q m j)
      - c * (\<Sum>i = ?a..<UL - 1. get2 amdq m i + get2 apdq m i)"
    by (simp add: sum.distrib algebra_simps)
  finally show ?thesis .
qed


lemma sum_split_ends:
  fixes f :: "nat \<Rightarrow> 'a::comm_ring_1"
  assumes "a + 3 \<le> b"
  shows "(\<Sum>j = a..<b. f j) = f a + f (a + 1) + (\<Sum>j = a + 2..<b - 1. f j) + f (b - 1)"
proof -
  obtain u where u: "b = Suc u" using assms by (cases b) auto
  have au: "a \<le> u" "a < u" "Suc a < u" using assms u by simp_all
  have "(\<Sum>j = a..<Suc u. f j) = (\<Sum>j = a..<u. f j) + f u"
    using au(1) by (simp add: sum.atLeastLessThan_Suc)
  also have "(\<Sum>j = a..<u. f j) = f a + (\<Sum>j = Suc a..<u. f j)"
    using au(2) by (simp add: sum.atLeast_Suc_lessThan)
  also have "(\<Sum>j = Suc a..<u. f j) = f (Suc a) + (\<Sum>j = Suc (Suc a)..<u. f j)"
    using au(3) by (simp add: sum.atLeast_Suc_lessThan)
  finally show ?thesis using u by (simp add: add.assoc)
qed

lemma godunov_cell_value:
  fixes c :: "'a::comm_ring_1"
  assumes "1 \<le> LL" "LL \<le> UL" "num_eqn \<le> length q" "\<forall>m<num_eqn. UL \<le> length (q ! m)"
    "m < num_eqn" "\<forall>j\<in>{LL - 1..<UL}. dtdx ! j = c" "LL - 1 \<le> j" "j < UL"
  shows "get2 (godunov_update_compiled dtdx apdq amdq num_eqn LL UL q) m j = get2 q m j
       - c * (if LL \<le> j \<and> j < UL then get2 apdq m (j - 1) else 0)
       - c * (if LL \<le> j + 1 \<and> j + 1 < UL then get2 amdq m j else 0)"
proof -
  have "dtdx ! j = c" using assms(6,7,8) by simp
  then show ?thesis
    using godunov_outer_get2 [OF assms(1-4), of dtdx apdq amdq m j] assms(5)
      godunov_cell_uniform [of dtdx j c apdq amdq LL UL m "get2 q m j"]
    by simp
qed

lemma godunov_physical_sum:
  fixes c :: "'a::comm_ring_1"
  assumes "1 \<le> LL" "LL \<le> UL" "num_eqn \<le> length q" "\<forall>m<num_eqn. UL \<le> length (q ! m)"
    "m < num_eqn" "\<forall>j\<in>{LL - 1..<UL}. dtdx ! j = c"
  shows "(\<Sum>j = LL + 1..<UL - 1. get2 (godunov_update_compiled dtdx apdq amdq num_eqn LL UL q) m j)
       = (\<Sum>j = LL + 1..<UL - 1. get2 q m j)
         - c * (\<Sum>j = LL + 1..<UL - 1. get2 apdq m (j - 1) + get2 amdq m j)"
proof -
  let ?G = "godunov_update_compiled dtdx apdq amdq num_eqn LL UL q"
  have cell: "get2 ?G m j = get2 q m j - c * get2 apdq m (j - 1) - c * get2 amdq m j"
    if "j \<in> {LL + 1..<UL - 1}" for j
  proof -
    have j: "LL - 1 \<le> j" "j < UL" "LL \<le> j \<and> j < UL" "LL \<le> j + 1 \<and> j + 1 < UL"
      using that by auto
    show ?thesis
      using godunov_cell_value [OF assms j(1,2), of apdq amdq] j(3,4) by simp
  qed
  have "(\<Sum>j = LL + 1..<UL - 1. get2 ?G m j)
      = (\<Sum>j = LL + 1..<UL - 1. get2 q m j - c * get2 apdq m (j - 1) - c * get2 amdq m j)"
    by (rule sum.cong [OF refl cell])
  also have "\<dots> = (\<Sum>j = LL + 1..<UL - 1. get2 q m j)
         - c * (\<Sum>j = LL + 1..<UL - 1. get2 apdq m (j - 1) + get2 amdq m j)"
    by (simp add: sum_subtractf sum_distrib_left sum.distrib algebra_simps)
  finally show ?thesis .
qed

lemma godunov_physical_invariant:
  fixes c :: "'a::comm_ring_1"
  assumes "1 \<le> LL" "LL \<le> UL" "num_eqn \<le> length q" "\<forall>m<num_eqn. UL \<le> length (q ! m)"
    "m < num_eqn" "\<forall>j\<in>{LL - 1..<UL}. dtdx ! j = c"
    and zero: "(\<Sum>i = LL - 1..<UL - 1. get2 amdq m i + get2 apdq m i) = 0"
    and bnd: "get2 amdq m (LL - 1) + get2 apdq m (LL - 1) + get2 amdq m LL + get2 apdq m (UL - 2) = 0"
  shows "(\<Sum>j = LL + 1..<UL - 1. get2 (godunov_update_compiled dtdx apdq amdq num_eqn LL UL q) m j)
       = (\<Sum>j = LL + 1..<UL - 1. get2 q m j)"
proof (cases "LL + 2 \<le> UL")
  case False
  then have "{LL + 1..<UL - 1} = {}" by auto
  then show ?thesis by simp
next
  case True
  let ?G = "godunov_update_compiled dtdx apdq amdq num_eqn LL UL q"
  let ?a = "LL - 1"
  have a3: "?a + 3 \<le> UL" and idx: "?a + 1 = LL" "?a + 2 = LL + 1" "UL - 1 - 1 = UL - 2"
    using assms(1) True by simp_all
  have touched: "(\<Sum>j = ?a..<UL. get2 ?G m j) = (\<Sum>j = ?a..<UL. get2 q m j)"
    using godunov_touched_sum [OF assms(1-6), of apdq amdq] zero by simp
  have n0: "\<not> LL \<le> ?a" "LL \<le> ?a + 1" "?a + 1 < UL" "?a < UL"
    and n1: "LL < UL" "LL + 1 < UL" "?a \<le> LL"
    and n2: "LL \<le> UL - 1" "UL - 1 < UL" "\<not> UL - 1 + 1 < UL" "?a \<le> UL - 1"
    using assms(1) True by arith+
  have c0: "get2 ?G m ?a = get2 q m ?a - c * get2 amdq m ?a"
    using godunov_cell_value [OF assms(1-6), of ?a apdq amdq] n0 by simp
  have c1: "get2 ?G m LL = get2 q m LL - c * get2 apdq m ?a - c * get2 amdq m LL"
    using godunov_cell_value [OF assms(1-6), of LL apdq amdq] n1 by simp
  have c2: "get2 ?G m (UL - 1) = get2 q m (UL - 1) - c * get2 apdq m (UL - 2)"
    using godunov_cell_value [OF assms(1-6), of "UL - 1" apdq amdq] n2 idx(3) by simp
  have sG: "(\<Sum>j = ?a..<UL. get2 ?G m j)
      = get2 ?G m ?a + get2 ?G m LL + (\<Sum>j = LL + 1..<UL - 1. get2 ?G m j) + get2 ?G m (UL - 1)"
    using sum_split_ends [OF a3, of "\<lambda>j. get2 ?G m j"] by (simp only: idx)
  have sq: "(\<Sum>j = ?a..<UL. get2 q m j)
      = get2 q m ?a + get2 q m LL + (\<Sum>j = LL + 1..<UL - 1. get2 q m j) + get2 q m (UL - 1)"
    using sum_split_ends [OF a3, of "\<lambda>j. get2 q m j"] by (simp only: idx)
  have "(\<Sum>j = LL + 1..<UL - 1. get2 ?G m j) = (\<Sum>j = LL + 1..<UL - 1. get2 q m j)
      + c * (get2 amdq m ?a + get2 apdq m ?a + get2 amdq m LL + get2 apdq m (UL - 2))"
    using touched unfolding sG sq c0 c1 c2 by (simp add: algebra_simps)
  then show ?thesis using bnd by simp
qed

text \<open>
  C5, as the code has it. In exact arithmetic (the scalars form a commutative ring) and
  for \<open>dtdx\<close> equal to a constant \<open>c\<close> on the touched range, the update changes the sum
  of \<open>q[m, j]\<close> over the touched range \<open>j \<in> [LL - 1, UL)\<close> by \<open>-c\<close> times the sum of
  \<open>amdq[m, i] + apdq[m, i]\<close> over the interfaces \<open>i \<in> [LL - 1, UL - 1)\<close>, and the sum
  over the physical cells \<open>j \<in> [LL + 1, UL - 1)\<close> by \<open>-c\<close> times the sum of the
  fluctuations \<open>apdq[m, j - 1] + amdq[m, j]\<close> that enter those cells. Hence, when every
  fluctuation pair is a flux difference \<open>F i - F (i - 1)\<close>, the flux is the same at the
  two ends of the range and, in addition, the fluctuations that reach the three touched
  cells outside the physical domain add up to zero
  (\<open>amdq[m, LL-1] + apdq[m, LL-1] + amdq[m, LL] + apdq[m, UL-2] = 0\<close>, as for an isolated
  interior pulse, where each of them is zero), the sum over the physical cells is
  unchanged.
\<close>

theorem godunov_update_conservation:
  fixes c :: "'a::comm_ring_1" and F :: "int \<Rightarrow> 'a"
  assumes "1 \<le> LL" "LL \<le> UL" "num_eqn \<le> length q" "\<forall>m<num_eqn. UL \<le> length (q ! m)"
    "m < num_eqn" "\<forall>j\<in>{LL - 1..<UL}. dtdx ! j = c"
  shows "(\<Sum>j = LL - 1..<UL. get2 (godunov_update_compiled dtdx apdq amdq num_eqn LL UL q) m j)
         = (\<Sum>j = LL - 1..<UL. get2 q m j)
           - c * (\<Sum>i = LL - 1..<UL - 1. get2 amdq m i + get2 apdq m i)
       \<and> (\<Sum>j = LL + 1..<UL - 1. get2 (godunov_update_compiled dtdx apdq amdq num_eqn LL UL q) m j)
         = (\<Sum>j = LL + 1..<UL - 1. get2 q m j)
           - c * (\<Sum>j = LL + 1..<UL - 1. get2 apdq m (j - 1) + get2 amdq m j)
       \<and> ((\<forall>i\<in>{LL - 1..<UL - 1}. get2 amdq m i + get2 apdq m i = F (int i) - F (int i - 1))
            \<and> F (int UL - 2) = F (int LL - 2)
            \<and> get2 amdq m (LL - 1) + get2 apdq m (LL - 1) + get2 amdq m LL + get2 apdq m (UL - 2) = 0
            \<longrightarrow>
          (\<Sum>j = LL + 1..<UL - 1. get2 (godunov_update_compiled dtdx apdq amdq num_eqn LL UL q) m j)
          = (\<Sum>j = LL + 1..<UL - 1. get2 q m j))"
proof -
  have zero: "(\<Sum>i = LL - 1..<UL - 1. get2 amdq m i + get2 apdq m i) = 0"
    if fl: "\<forall>i\<in>{LL - 1..<UL - 1}. get2 amdq m i + get2 apdq m i = F (int i) - F (int i - 1)"
      and ends: "F (int UL - 2) = F (int LL - 2)"
  proof -
    have le: "LL - 1 \<le> UL - 1" using assms(1,2) by arith
    have "(\<Sum>i = LL - 1..<UL - 1. get2 amdq m i + get2 apdq m i)
        = (\<Sum>i = LL - 1..<UL - 1. F (int i) - F (int i - 1))"
      using fl by (intro sum.cong) auto
    also have "\<dots> = F (int (UL - 1) - 1) - F (int (LL - 1) - 1)"
      by (rule sum_telescope_int [OF le])
    finally have "(\<Sum>i = LL - 1..<UL - 1. get2 amdq m i + get2 apdq m i)
        = F (int (UL - 1) - 1) - F (int (LL - 1) - 1)" .
    moreover have "int (UL - 1) - 1 = int UL - 2" "int (LL - 1) - 1 = int LL - 2"
      using assms(1,2) by simp_all
    ultimately show ?thesis using ends by simp
  qed
  show ?thesis
    using godunov_touched_sum [OF assms, of apdq amdq] godunov_physical_sum [OF assms, of apdq amdq]
      godunov_physical_invariant [OF assms, of amdq apdq] zero
    by blast
qed

theorem godunov_update_conservation_witness:
  "(1::nat) \<le> 1 \<and> (1::nat) \<le> 6 \<and> 1 \<le> length [[0, 0, 0, 1, 0, 0, 0 :: real]]
   \<and> 6 \<le> length ([[0, 0, 0, 1, 0, 0, 0 :: real]] ! 0) \<and> (0::nat) < 1
   \<and> pulse_flux (int 6 - 2) = pulse_flux (int 1 - 2)
   \<and> get2 [[0, 0, 0, 0, 0, 0 :: real]] 0 (1 - 1) + get2 [[0, 0, 1, - 1, 0, 0 :: real]] 0 (1 - 1)
       + get2 [[0, 0, 0, 0, 0, 0 :: real]] 0 1 + get2 [[0, 0, 1, - 1, 0, 0 :: real]] 0 (6 - 2) = 0
   \<and> (\<Sum>j = 1 + 1..<6 - 1. get2 (godunov_update_compiled [1 / 2, 1 / 2, 1 / 2, 1 / 2, 1 / 2, 1 / 2, 1 / 2]
            [[0, 0, 1, - 1, 0, 0]] [[0, 0, 0, 0, 0, 0]] 1 1 6 [[0, 0, 0, 1, 0, 0, 0 :: real]]) 0 j)
      = (\<Sum>j = 1 + 1..<6 - 1. get2 [[0, 0, 0, 1, 0, 0, 0 :: real]] 0 j)
   \<and> (\<Sum>j = 1 + 1..<6 - 1. get2 [[0, 0, 0, 1, 0, 0, 0 :: real]] 0 j) = 1
   \<and> godunov_update_compiled [1 / 2, 1 / 2, 1 / 2, 1 / 2, 1 / 2, 1 / 2, 1 / 2]
            [[0, 0, 1, - 1, 0, 0]] [[0, 0, 0, 0, 0, 0]] 1 1 6 [[0, 0, 0, 1, 0, 0, 0 :: real]]
      = [[0, 0, 0, 1 / 2, 1 / 2, 0, 0]]"
proof -
  have h: "(1::nat) \<le> 1" "(1::nat) \<le> 6" "1 \<le> length [[0, 0, 0, 1, 0, 0, 0 :: real]]"
    "\<forall>m<1. 6 \<le> length ([[0, 0, 0, 1, 0, 0, 0 :: real]] ! m)" "(0::nat) < 1"
    "\<forall>j\<in>{1 - 1..<6}. [1 / 2, 1 / 2, 1 / 2, 1 / 2, 1 / 2, 1 / 2, 1 / 2 :: real] ! j = 1 / 2"
    by (simp_all add: nth_Cons')
  have r: "{1 - 1..<6 - 1} = {0, 1, 2, 3, 4 :: nat}" by auto
  have fl: "\<forall>i\<in>{1 - 1..<6 - 1}. get2 [[0, 0, 0, 0, 0, 0 :: real]] 0 i + get2 [[0, 0, 1, - 1, 0, 0]] 0 i
                = pulse_flux (int i) - pulse_flux (int i - 1)"
    unfolding r by (simp add: get2_def pulse_flux_def)
  have ends: "pulse_flux (int 6 - 2) = pulse_flux (int 1 - 2)"
    by (simp add: pulse_flux_def)
  have bnd: "get2 [[0, 0, 0, 0, 0, 0 :: real]] 0 (1 - 1) + get2 [[0, 0, 1, - 1, 0, 0 :: real]] 0 (1 - 1)
       + get2 [[0, 0, 0, 0, 0, 0 :: real]] 0 1 + get2 [[0, 0, 1, - 1, 0, 0 :: real]] 0 (6 - 2) = 0"
    by (simp add: get2_def)
  have s: "(\<Sum>j = 1 + 1..<6 - 1. get2 [[0, 0, 0, 1, 0, 0, 0 :: real]] 0 j) = 1"
    by (simp add: get2_def sum.atLeast_Suc_lessThan)
  have v: "godunov_update_compiled [1 / 2, 1 / 2, 1 / 2, 1 / 2, 1 / 2, 1 / 2, 1 / 2]
            [[0, 0, 1, - 1, 0, 0]] [[0, 0, 0, 0, 0, 0]] 1 1 6 [[0, 0, 0, 1, 0, 0, 0 :: real]]
      = [[0, 0, 0, 1 / 2, 1 / 2, 0, 0]]"
    by (simp add: godunov_update_compiled_def godunov_body_def get2_def set2_def upt_rec)
  have inv: "(\<Sum>j = 1 + 1..<6 - 1. get2 (godunov_update_compiled [1 / 2, 1 / 2, 1 / 2, 1 / 2, 1 / 2, 1 / 2, 1 / 2]
            [[0, 0, 1, - 1, 0, 0]] [[0, 0, 0, 0, 0, 0]] 1 1 6 [[0, 0, 0, 1, 0, 0, 0 :: real]]) 0 j)
      = (\<Sum>j = 1 + 1..<6 - 1. get2 [[0, 0, 0, 1, 0, 0, 0 :: real]] 0 j)"
    using godunov_update_conservation [OF h, where apdq = "[[0, 0, 1, - 1, 0, 0]]"
        and amdq = "[[0, 0, 0, 0, 0, 0]]" and F = pulse_flux]
      fl ends bnd
    by blast
  show ?thesis
    using h(1-3,5) ends bnd inv s v by simp
qed

text \<open>
  C5, as the claim states it, fails for the sum over the physical cells: its hypotheses
  do not keep fluctuations away from the cells next to the physical domain. With two
  ghost cells and two physical cells (\<open>LL = 1\<close>, \<open>UL = 5\<close>, physical cells \<open>2\<close> and
  \<open>3\<close>), \<open>dtdx = 1/2\<close> and the pulse \<open>q = [0, 0, 0, 1, 0, 0]\<close> advected with unit
  speed, every fluctuation pair is the flux difference \<open>F i - F (i - 1)\<close> and the flux
  vanishes at both ends of the range, yet half of the pulse moves into the ghost cell
  \<open>4\<close>: the sum over the physical cells drops from \<open>1\<close> to \<open>1/2\<close>. The fluctuation
  \<open>apdq[0, UL - 2] = -1\<close> that reaches the ghost cell is the one the added hypothesis
  rules out.
\<close>

theorem godunov_physical_sum_counterexample:
  "get2 [[0, 0, 0, 0, 0 :: real]] 0 0 + get2 [[0, 0, 1, - 1, 0]] 0 0 = pulse_flux 0 - pulse_flux (0 - 1)
   \<and> get2 [[0, 0, 0, 0, 0 :: real]] 0 1 + get2 [[0, 0, 1, - 1, 0]] 0 1 = pulse_flux 1 - pulse_flux (1 - 1)
   \<and> get2 [[0, 0, 0, 0, 0 :: real]] 0 2 + get2 [[0, 0, 1, - 1, 0]] 0 2 = pulse_flux 2 - pulse_flux (2 - 1)
   \<and> get2 [[0, 0, 0, 0, 0 :: real]] 0 3 + get2 [[0, 0, 1, - 1, 0]] 0 3 = pulse_flux 3 - pulse_flux (3 - 1)
   \<and> pulse_flux (5 - 2) = pulse_flux (1 - 2)
   \<and> get2 [[0, 0, 0, 1, 0, 0 :: real]] 0 2 + get2 [[0, 0, 0, 1, 0, 0 :: real]] 0 3 = 1
   \<and> get2 (godunov_update_compiled [1 / 2, 1 / 2, 1 / 2, 1 / 2, 1 / 2, 1 / 2]
            [[0, 0, 1, - 1, 0]] [[0, 0, 0, 0, 0]] 1 1 5 [[0, 0, 0, 1, 0, 0 :: real]]) 0 2
     + get2 (godunov_update_compiled [1 / 2, 1 / 2, 1 / 2, 1 / 2, 1 / 2, 1 / 2]
            [[0, 0, 1, - 1, 0]] [[0, 0, 0, 0, 0]] 1 1 5 [[0, 0, 0, 1, 0, 0 :: real]]) 0 3 = 1 / 2"
  by (simp add: godunov_update_compiled_def godunov_body_def get2_def set2_def upt_rec pulse_flux_def)

section \<open>The flux-splitting branch of the correction fluxes\<close>

text \<open>
  The input used below: one equation, one wave family, two ghost cells around one
  physical cell (\<open>LL = num_ghost - 1 = 1\<close>, \<open>UL = num_ghost + num_cells + 1 = 4\<close>),
  \<open>dtdx = 1/2\<close> everywhere, speeds \<open>s = [1, -1, 1, 1]\<close>, waves \<open>1\<close>, \<^verbatim>\<open>fwave\<close> set.
\<close>

lemmas cf_defs = compute_correction_fluxes_run_def cf_flux_body_def cf_coeff_body_def cf_dtdxave_body_def
  buf_set_def buf_get_def buf_note_read_def np_empty_def shape1_def get2_def get3_def set2_def

lemma replicate_5: "replicate 5 x = [x, x, x, x, x]"
  by (simp add: eval_nat_numeral)

lemma replicate_3: "replicate 3 x = [x, x, x]"
  by (simp add: eval_nat_numeral)

text \<open>
  C4 at this input. The dispatcher takes the compiled path, which stores the sign of
  \<open>s[mw, n - 1]\<close> in \<open>ssign[n]\<close> and reads \<open>ssign[n - LL]\<close>: entry \<open>f[0, 1]\<close> is built
  from the uninitialised cell \<open>ssign[0]\<close>, \<open>f[0, 2]\<close> from the sign of \<open>s[0, 0]\<close> and
  \<open>f[0, 3]\<close> from the sign of \<open>s[0, 1]\<close>. The formula of the claim gives \<open>1/4\<close>,
  \<open>-1/4\<close>, \<open>1/4\<close>, and so does the array-expression branch of the same function.
\<close>

theorem compute_correction_fluxes_fwave_misaligned:
  "compute_correction_fluxes junk [[[1, 1, 1, 1]]] [[1, - 1, 1, 1]]
       [1 / 2, 1 / 2, 1 / 2, 1 / 2, 1 / 2 :: real] 1 2 1 1 4 True
     = Inr [[0, junk 3 0 / 4, 1 / 4, - 1 / 4, 0]]
   \<and> fwave_flux_formula [[[1, 1, 1, 1]]] [[1, - 1, 1, 1]]
       [1 / 2, 1 / 2, 1 / 2, 1 / 2, 1 / 2 :: real] 0 1 = 1 / 4
   \<and> fwave_flux_formula [[[1, 1, 1, 1]]] [[1, - 1, 1, 1]]
       [1 / 2, 1 / 2, 1 / 2, 1 / 2, 1 / 2 :: real] 0 2 = - 1 / 4
   \<and> fwave_flux_formula [[[1, 1, 1, 1]]] [[1, - 1, 1, 1]]
       [1 / 2, 1 / 2, 1 / 2, 1 / 2, 1 / 2 :: real] 0 3 = 1 / 4
   \<and> compute_correction_fluxes_numpy [[[1, 1, 1, 1]]] [[1, - 1, 1, 1]]
       [1 / 2, 1 / 2, 1 / 2, 1 / 2, 1 / 2 :: real] 1 2 1 1 4 True
     = Inr [[0, 1 / 4, - 1 / 4, 1 / 4, 0]]"
proof -
  have "compute_correction_fluxes_compiled junk [[[1, 1, 1, 1]]] [[1, - 1, 1, 1]]
       [1 / 2, 1 / 2, 1 / 2, 1 / 2, 1 / 2 :: real] 1 2 1 1 4 True
     = [[0, junk 3 0 / 4, 1 / 4, - 1 / 4, 0]]"
    unfolding compute_correction_fluxes_compiled_def
    by (simp add: cf_defs upt_rec Let_def replicate_5)
  moreover have "compute_correction_fluxes_numpy [[[1, 1, 1, 1]]] [[1, - 1, 1, 1]]
       [1 / 2, 1 / 2, 1 / 2, 1 / 2, 1 / 2 :: real] 1 2 1 1 4 True
     = Inr [[0, 1 / 4, - 1 / 4, 1 / 4, 0]]"
    by (simp add: compute_correction_fluxes_numpy_def np_binop_def np_inplace_slice_def py_slice_def
        shape1_def upt_rec replicate_5 replicate_3)
  moreover have "fwave_flux_formula [[[1, 1, 1, 1]]] [[1, - 1, 1, 1]]
       [1 / 2, 1 / 2, 1 / 2, 1 / 2, 1 / 2 :: real] 0 1 = 1 / 4"
    "fwave_flux_formula [[[1, 1, 1, 1]]] [[1, - 1, 1, 1]]
       [1 / 2, 1 / 2, 1 / 2, 1 / 2, 1 / 2 :: real] 0 2 = - 1 / 4"
    "fwave_flux_formula [[[1, 1, 1, 1]]] [[1, - 1, 1, 1]]
       [1 / 2, 1 / 2, 1 / 2, 1 / 2, 1 / 2 :: real] 0 3 = 1 / 4"
    by (simp_all add: fwave_flux_formula_def shape1_def get2_def get3_def)
  ultimately show ?thesis
    by (simp add: compute_correction_fluxes_def use_cython_def)
qed

text \<open>
  C9 at this input. The array \<^verbatim>\<open>ssign\<close> has \<open>UL - LL = 3\<close> cells. The sweep writes
  \<open>ssign[1]\<close>, \<open>ssign[2]\<close>, \<open>ssign[3]\<close> and then reads \<open>ssign[0]\<close>, \<open>ssign[1]\<close>,
  \<open>ssign[2]\<close>: the store to index \<open>3\<close> lies behind the array, and the read of index \<open>0\<close>
  is of a cell the sweep never wrote.
\<close>

theorem ssign_accesses_out_of_bounds:
  "len (ssign_buf (compute_correction_fluxes_run junk [[[1, 1, 1, 1]]] [[1, - 1, 1, 1]]
       [1 / 2, 1 / 2, 1 / 2, 1 / 2, 1 / 2 :: real] 1 2 1 1 4 True)) = 3
   \<and> trace (ssign_buf (compute_correction_fluxes_run junk [[[1, 1, 1, 1]]] [[1, - 1, 1, 1]]
       [1 / 2, 1 / 2, 1 / 2, 1 / 2, 1 / 2 :: real] 1 2 1 1 4 True))
     = [Wr 1, Wr 2, Wr 3, Rd 0, Rd 1, Rd 2]
   \<and> \<not> trace_in_bounds (ssign_buf (compute_correction_fluxes_run junk [[[1, 1, 1, 1]]] [[1, - 1, 1, 1]]
       [1 / 2, 1 / 2, 1 / 2, 1 / 2, 1 / 2 :: real] 1 2 1 1 4 True))
   \<and> \<not> reads_after_writes [] (trace (ssign_buf (compute_correction_fluxes_run junk [[[1, 1, 1, 1]]]
       [[1, - 1, 1, 1]] [1 / 2, 1 / 2, 1 / 2, 1 / 2, 1 / 2 :: real] 1 2 1 1 4 True)))"
proof -
  have t: "trace (ssign_buf (compute_correction_fluxes_run junk [[[1, 1, 1, 1]]] [[1, - 1, 1, 1]]
       [1 / 2, 1 / 2, 1 / 2, 1 / 2, 1 / 2 :: real] 1 2 1 1 4 True))
     = [Wr 1, Wr 2, Wr 3, Rd 0, Rd 1, Rd 2]"
    and l: "len (ssign_buf (compute_correction_fluxes_run junk [[[1, 1, 1, 1]]] [[1, - 1, 1, 1]]
       [1 / 2, 1 / 2, 1 / 2, 1 / 2, 1 / 2 :: real] 1 2 1 1 4 True)) = 3"
    by (simp_all add: cf_defs upt_rec Let_def)
  show ?thesis
    unfolding trace_in_bounds_def t l by simp
qed

end
